theory Spec2Isabelle
  imports Main
begin

section \<open>Python strings\<close>

text \<open>
  A Python \<open>str\<close> is a sequence of Unicode code points. The messages of this program are
  Chinese text, so a string is a list of code points (natural numbers); ASCII literals
  such as \<open>"Shanghai"\<close> are written through \<open>ascii\<close>.
\<close>

type_synonym pystr = "nat list"

definition ascii :: "string \<Rightarrow> pystr" where
  "ascii s = map of_char s"

text \<open>Truth value of a string in a condition (\<open>if s:\<close>): the empty string is false.\<close>

definition truthy :: "pystr \<Rightarrow> bool" where
  "truthy s = (s \<noteq> [])"

fun starts_with :: "pystr \<Rightarrow> pystr \<Rightarrow> bool" where
  "starts_with [] ys = True"
| "starts_with (x # xs) [] = False"
| "starts_with (x # xs) (y # ys) = (x = y \<and> starts_with xs ys)"

text \<open>The substring test \<open>cn in message\<close>.\<close>

fun str_in :: "pystr \<Rightarrow> pystr \<Rightarrow> bool" where
  "str_in cn [] = (cn = [])"
| "str_in cn (y # ys) = (starts_with cn (y # ys) \<or> str_in cn ys)"

text \<open>
  \<open>str.isspace\<close>: the code points Python counts as whitespace. The program never calls
  it; it gives "whitespace-only message" a meaning.
\<close>

definition isspace :: "nat \<Rightarrow> bool" where
  "isspace c = (c \<in> set [9, 10, 11, 12, 13, 28, 29, 30, 31, 32, 133, 160, 5760,
     8192, 8193, 8194, 8195, 8196, 8197, 8198, 8199, 8200, 8201, 8202,
     8232, 8233, 8239, 8287, 12288])"

subsection \<open>The characters the program names\<close>

definition zh_zai :: nat where "zh_zai = 0x5728"
definition zh_qu :: nat where "zh_qu = 0x53BB"
definition zh_dao :: nat where "zh_dao = 0x5230"
definition zh_shi :: nat where "zh_shi = 0x5E02"
definition zh_district :: nat where "zh_district = 0x533A"
definition zh_xian :: nat where "zh_xian = 0x53BF"
definition zh_de :: nat where "zh_de = 0x7684"
definition zh_tian :: nat where "zh_tian = 0x5929"
definition zh_qi :: nat where "zh_qi = 0x6C14"

section \<open>The keyword table and the dictionary scan (design note, section 3)\<close>

text \<open>
  \<open>LOCATION_KEYWORDS\<close> is a dict literal; iteration follows insertion order, so it is an
  association list: Beijing, Shanghai, Hangzhou, Shenzhen, Chengdu, Guangzhou, Puer,
  Hong Kong, Tokyo.
\<close>

definition LOCATION_KEYWORDS :: "(pystr \<times> pystr) list" where
  "LOCATION_KEYWORDS =
    [([0x5317, 0x4EAC], ascii ''Beijing''),
     ([0x4E0A, 0x6D77], ascii ''Shanghai''),
     ([0x676D, 0x5DDE], ascii ''Hangzhou''),
     ([0x6DF1, 0x5733], ascii ''Shenzhen''),
     ([0x6210, 0x90FD], ascii ''Chengdu''),
     ([0x5E7F, 0x5DDE], ascii ''Guangzhou''),
     ([0x666E, 0x6D31], ascii ''Puer''),
     ([0x9999, 0x6E2F], ascii ''Hong Kong''),
     ([0x4E1C, 0x4EAC], ascii ''Tokyo'')]"

text \<open>
  \<open>for cn, en in LOCATION_KEYWORDS.items(): if cn in message: return en\<close>, then
  \<open>return None\<close>. The table is extensible, so the loop takes it as an argument.
\<close>

fun keyword_scan :: "(pystr \<times> pystr) list \<Rightarrow> pystr \<Rightarrow> pystr option" where
  "keyword_scan [] message = None"
| "keyword_scan ((cn, en) # rest) message =
     (if str_in cn message then Some en else keyword_scan rest message)"

definition extract_location_from_message :: "pystr \<Rightarrow> pystr option" where
  "extract_location_from_message message = keyword_scan LOCATION_KEYWORDS message"

section \<open>Regular expressions as \<open>re.search\<close> runs them\<close>

text \<open>
  The four patterns use literals, the class \<open>\w\<close>, a bracket set, the greedy operators
  \<open>?\<close> and \<open>+\<close>, one capture group and concatenation. \<open>\w\<close> on a \<open>str\<close> is the Unicode
  alphanumerics and the underscore; that table belongs to the language, not to the
  program, and the matcher takes it as the argument \<open>w\<close>.
\<close>

datatype cls = Lit nat | Word | OneOf "nat list"

fun accepts :: "(nat \<Rightarrow> bool) \<Rightarrow> cls \<Rightarrow> nat \<Rightarrow> bool" where
  "accepts w (Lit c) x = (x = c)"
| "accepts w Word x = w x"
| "accepts w (OneOf cs) x = (x \<in> set cs)"

datatype re = Atom cls | Opt re | Plus cls | Grp re | Cat re re

text \<open>A match object; \<open>group(1)\<close> is \<open>None\<close> when the group took no part.\<close>

datatype rematch = Match "pystr option"

fun group1 :: "rematch \<Rightarrow> pystr option" where
  "group1 (Match g) = g"

text \<open>
  The backtracking matcher in continuation style: \<open>bt w r k s g\<close> matches \<open>r\<close> at the
  front of \<open>s\<close> and hands the rest of the input and the capture to \<open>k\<close>; when \<open>k\<close> fails
  the next alternative of \<open>r\<close> is tried. Greedy operators try the longer alternative first.
\<close>

fun bt :: "(nat \<Rightarrow> bool) \<Rightarrow> re \<Rightarrow> (pystr \<Rightarrow> pystr option \<Rightarrow> rematch option)
             \<Rightarrow> pystr \<Rightarrow> pystr option \<Rightarrow> rematch option" where
  "bt w (Atom c) k [] g = None"
| "bt w (Atom c) k (x # xs) g = (if accepts w c x then k xs g else None)"
| "bt w (Opt r) k s g =
     (case bt w r k s g of Some m \<Rightarrow> Some m | None \<Rightarrow> k s g)"
| "bt w (Plus c) k [] g = None"
| "bt w (Plus c) k (x # xs) g =
     (if accepts w c x
      then (case bt w (Plus c) k xs g of Some m \<Rightarrow> Some m | None \<Rightarrow> k xs g)
      else None)"
| "bt w (Grp r) k s g =
     bt w r (\<lambda>s' g'. k s' (Some (take (length s - length s') s))) s g"
| "bt w (Cat r1 r2) k s g = bt w r1 (\<lambda>s' g'. bt w r2 k s' g') s g"

text \<open>\<open>re.match\<close>: a match at the front of the string.\<close>

definition match_here :: "(nat \<Rightarrow> bool) \<Rightarrow> re \<Rightarrow> pystr \<Rightarrow> rematch option" where
  "match_here w r s = bt w r (\<lambda>s' g. Some (Match g)) s None"

text \<open>\<open>re.search\<close>: the match at the leftmost position that has one.\<close>

fun search :: "(nat \<Rightarrow> bool) \<Rightarrow> re \<Rightarrow> pystr \<Rightarrow> rematch option" where
  "search w r [] = match_here w r []"
| "search w r (x # xs) =
     (case match_here w r (x # xs) of Some m \<Rightarrow> Some m | None \<Rightarrow> search w r xs)"

section \<open>Pattern-anchored extraction (design note, section 6)\<close>

text \<open>
  The list \<open>patterns\<close> of \<open>_extract_from_message\<close>, in its order:
  \<^verbatim>\<open>zai(\w+)[shi qu xian]?\<close>, \<^verbatim>\<open>qu(\w+)[shi qu xian]?\<close>, \<^verbatim>\<open>dao(\w+)[shi qu xian]?\<close> and
  \<^verbatim>\<open>(\w+)[shi qu xian]?de?tianqi\<close> (the Chinese characters written here by their
  reading; the definitions hold the code points).
\<close>

definition suffix_set :: re where
  "suffix_set = Opt (Atom (OneOf [zh_shi, zh_district, zh_xian]))"

definition cue_pattern :: "nat \<Rightarrow> re" where
  "cue_pattern c = Cat (Atom (Lit c)) (Cat (Grp (Plus Word)) suffix_set)"

definition weather_tail :: re where
  "weather_tail =
     Cat suffix_set (Cat (Opt (Atom (Lit zh_de))) (Cat (Atom (Lit zh_tian)) (Atom (Lit zh_qi))))"

definition weather_pattern :: re where
  "weather_pattern = Cat (Grp (Plus Word)) weather_tail"

definition patterns :: "re list" where
  "patterns = [cue_pattern zh_zai, cue_pattern zh_qu, cue_pattern zh_dao, weather_pattern]"

text \<open>
  \<open>CITY_MAP.get(city_cn)\<close> with \<open>city_cn = match.group(1)\<close>. The source uses \<open>CITY_MAP\<close>
  without defining it, so the table is the argument \<open>city_map\<close>. A group that took no
  part gives the key \<open>None\<close>, which a table keyed by strings does not hold.
\<close>

definition city_get :: "(pystr \<rightharpoonup> pystr) \<Rightarrow> pystr option \<Rightarrow> pystr option" where
  "city_get city_map city_cn = (case city_cn of None \<Rightarrow> None | Some cn \<Rightarrow> city_map cn)"

text \<open>
  The loop \<open>for pattern in patterns\<close>: the first pattern that matches returns, whatever
  the lookup gives; after the last pattern, \<open>return None\<close>.
\<close>

fun extract_loop :: "(nat \<Rightarrow> bool) \<Rightarrow> (pystr \<rightharpoonup> pystr) \<Rightarrow> re list \<Rightarrow> pystr \<Rightarrow> pystr option" where
  "extract_loop w city_map [] message = None"
| "extract_loop w city_map (pattern # rest) message =
     (case search w pattern message of
        Some m \<Rightarrow> city_get city_map (group1 m)
      | None \<Rightarrow> extract_loop w city_map rest message)"

definition WeatherConfig_extract_from_message ::
  "(nat \<Rightarrow> bool) \<Rightarrow> (pystr \<rightharpoonup> pystr) \<Rightarrow> pystr \<Rightarrow> pystr option" where
  "WeatherConfig_extract_from_message w city_map message =
     extract_loop w city_map patterns message"

text \<open>
  Modelled from the spec: the table \<open>CITY_MAP\<close> that \<open>_extract_from_message\<close> reads is not
  in the source. The spec has the captured span "looked up in the dictionary", the same
  dictionary as the direct scan, so the table is the lookup of \<open>LOCATION_KEYWORDS\<close>.
\<close>

definition CITY_MAP :: "pystr \<rightharpoonup> pystr" where
  "CITY_MAP = map_of LOCATION_KEYWORDS"

text \<open>
  The \<open>\w\<close> table of Python 3.11 (Unicode 14.0): the code points \<open>c\<close> with
  \<open>chr(c).isalnum()\<close>, and the underscore, as 734 ranges in ascending order. The range that
  holds the CJK unified ideographs, U+4E00 to U+A48C, stands between the ranges below it
  and those above it. Punctuation (the fullwidth comma U+FF0C among it) and whitespace
  are outside. Theorems that hold for every table are stated for every \<open>w\<close>; this one
  instantiates them.
\<close>

fun in_ranges :: "nat \<Rightarrow> (nat \<times> nat) list \<Rightarrow> bool" where
  "in_ranges c [] = False"
| "in_ranges c ((lo, hi) # rs) =
     (if c < lo then False else if c \<le> hi then True else in_ranges c rs)"

definition word_ranges_low :: "(nat \<times> nat) list" where
  "word_ranges_low =
    [(0x30, 0x39), (0x41, 0x5A), (0x5F, 0x5F), (0x61, 0x7A), (0xAA, 0xAA), (0xB2, 0xB3),
     (0xB5, 0xB5), (0xB9, 0xBA), (0xBC, 0xBE), (0xC0, 0xD6), (0xD8, 0xF6), (0xF8, 0x2C1),
     (0x2C6, 0x2D1), (0x2E0, 0x2E4), (0x2EC, 0x2EC), (0x2EE, 0x2EE), (0x370, 0x374),
     (0x376, 0x377), (0x37A, 0x37D), (0x37F, 0x37F), (0x386, 0x386), (0x388, 0x38A),
     (0x38C, 0x38C), (0x38E, 0x3A1), (0x3A3, 0x3F5), (0x3F7, 0x481), (0x48A, 0x52F),
     (0x531, 0x556), (0x559, 0x559), (0x560, 0x588), (0x5D0, 0x5EA), (0x5EF, 0x5F2),
     (0x620, 0x64A), (0x660, 0x669), (0x66E, 0x66F), (0x671, 0x6D3), (0x6D5, 0x6D5),
     (0x6E5, 0x6E6), (0x6EE, 0x6FC), (0x6FF, 0x6FF), (0x710, 0x710), (0x712, 0x72F),
     (0x74D, 0x7A5), (0x7B1, 0x7B1), (0x7C0, 0x7EA), (0x7F4, 0x7F5), (0x7FA, 0x7FA),
     (0x800, 0x815), (0x81A, 0x81A), (0x824, 0x824), (0x828, 0x828), (0x840, 0x858),
     (0x860, 0x86A), (0x870, 0x887), (0x889, 0x88E), (0x8A0, 0x8C9), (0x904, 0x939),
     (0x93D, 0x93D), (0x950, 0x950), (0x958, 0x961), (0x966, 0x96F), (0x971, 0x980),
     (0x985, 0x98C), (0x98F, 0x990), (0x993, 0x9A8), (0x9AA, 0x9B0), (0x9B2, 0x9B2),
     (0x9B6, 0x9B9), (0x9BD, 0x9BD), (0x9CE, 0x9CE), (0x9DC, 0x9DD), (0x9DF, 0x9E1),
     (0x9E6, 0x9F1), (0x9F4, 0x9F9), (0x9FC, 0x9FC), (0xA05, 0xA0A), (0xA0F, 0xA10),
     (0xA13, 0xA28), (0xA2A, 0xA30), (0xA32, 0xA33), (0xA35, 0xA36), (0xA38, 0xA39),
     (0xA59, 0xA5C), (0xA5E, 0xA5E), (0xA66, 0xA6F), (0xA72, 0xA74), (0xA85, 0xA8D),
     (0xA8F, 0xA91), (0xA93, 0xAA8), (0xAAA, 0xAB0), (0xAB2, 0xAB3), (0xAB5, 0xAB9),
     (0xABD, 0xABD), (0xAD0, 0xAD0), (0xAE0, 0xAE1), (0xAE6, 0xAEF), (0xAF9, 0xAF9),
     (0xB05, 0xB0C), (0xB0F, 0xB10), (0xB13, 0xB28), (0xB2A, 0xB30), (0xB32, 0xB33),
     (0xB35, 0xB39), (0xB3D, 0xB3D), (0xB5C, 0xB5D), (0xB5F, 0xB61), (0xB66, 0xB6F),
     (0xB71, 0xB77), (0xB83, 0xB83), (0xB85, 0xB8A), (0xB8E, 0xB90), (0xB92, 0xB95),
     (0xB99, 0xB9A), (0xB9C, 0xB9C), (0xB9E, 0xB9F), (0xBA3, 0xBA4), (0xBA8, 0xBAA),
     (0xBAE, 0xBB9), (0xBD0, 0xBD0), (0xBE6, 0xBF2), (0xC05, 0xC0C), (0xC0E, 0xC10),
     (0xC12, 0xC28), (0xC2A, 0xC39), (0xC3D, 0xC3D), (0xC58, 0xC5A), (0xC5D, 0xC5D),
     (0xC60, 0xC61), (0xC66, 0xC6F), (0xC78, 0xC7E), (0xC80, 0xC80), (0xC85, 0xC8C),
     (0xC8E, 0xC90), (0xC92, 0xCA8), (0xCAA, 0xCB3), (0xCB5, 0xCB9), (0xCBD, 0xCBD),
     (0xCDD, 0xCDE), (0xCE0, 0xCE1), (0xCE6, 0xCEF), (0xCF1, 0xCF2), (0xD04, 0xD0C),
     (0xD0E, 0xD10), (0xD12, 0xD3A), (0xD3D, 0xD3D), (0xD4E, 0xD4E), (0xD54, 0xD56),
     (0xD58, 0xD61), (0xD66, 0xD78), (0xD7A, 0xD7F), (0xD85, 0xD96), (0xD9A, 0xDB1),
     (0xDB3, 0xDBB), (0xDBD, 0xDBD), (0xDC0, 0xDC6), (0xDE6, 0xDEF), (0xE01, 0xE30),
     (0xE32, 0xE33), (0xE40, 0xE46), (0xE50, 0xE59), (0xE81, 0xE82), (0xE84, 0xE84),
     (0xE86, 0xE8A), (0xE8C, 0xEA3), (0xEA5, 0xEA5), (0xEA7, 0xEB0), (0xEB2, 0xEB3),
     (0xEBD, 0xEBD), (0xEC0, 0xEC4), (0xEC6, 0xEC6), (0xED0, 0xED9), (0xEDC, 0xEDF),
     (0xF00, 0xF00), (0xF20, 0xF33), (0xF40, 0xF47), (0xF49, 0xF6C), (0xF88, 0xF8C),
     (0x1000, 0x102A), (0x103F, 0x1049), (0x1050, 0x1055), (0x105A, 0x105D), (0x1061, 0x1061),
     (0x1065, 0x1066), (0x106E, 0x1070), (0x1075, 0x1081), (0x108E, 0x108E), (0x1090, 0x1099),
     (0x10A0, 0x10C5), (0x10C7, 0x10C7), (0x10CD, 0x10CD), (0x10D0, 0x10FA), (0x10FC, 0x1248),
     (0x124A, 0x124D), (0x1250, 0x1256), (0x1258, 0x1258), (0x125A, 0x125D), (0x1260, 0x1288),
     (0x128A, 0x128D), (0x1290, 0x12B0), (0x12B2, 0x12B5), (0x12B8, 0x12BE), (0x12C0, 0x12C0),
     (0x12C2, 0x12C5), (0x12C8, 0x12D6), (0x12D8, 0x1310), (0x1312, 0x1315), (0x1318, 0x135A),
     (0x1369, 0x137C), (0x1380, 0x138F), (0x13A0, 0x13F5), (0x13F8, 0x13FD), (0x1401, 0x166C),
     (0x166F, 0x167F), (0x1681, 0x169A), (0x16A0, 0x16EA), (0x16EE, 0x16F8), (0x1700, 0x1711),
     (0x171F, 0x1731), (0x1740, 0x1751), (0x1760, 0x176C), (0x176E, 0x1770), (0x1780, 0x17B3),
     (0x17D7, 0x17D7), (0x17DC, 0x17DC), (0x17E0, 0x17E9), (0x17F0, 0x17F9), (0x1810, 0x1819),
     (0x1820, 0x1878), (0x1880, 0x1884), (0x1887, 0x18A8), (0x18AA, 0x18AA), (0x18B0, 0x18F5),
     (0x1900, 0x191E), (0x1946, 0x196D), (0x1970, 0x1974), (0x1980, 0x19AB), (0x19B0, 0x19C9),
     (0x19D0, 0x19DA), (0x1A00, 0x1A16), (0x1A20, 0x1A54), (0x1A80, 0x1A89), (0x1A90, 0x1A99),
     (0x1AA7, 0x1AA7), (0x1B05, 0x1B33), (0x1B45, 0x1B4C), (0x1B50, 0x1B59), (0x1B83, 0x1BA0),
     (0x1BAE, 0x1BE5), (0x1C00, 0x1C23), (0x1C40, 0x1C49), (0x1C4D, 0x1C7D), (0x1C80, 0x1C88),
     (0x1C90, 0x1CBA), (0x1CBD, 0x1CBF), (0x1CE9, 0x1CEC), (0x1CEE, 0x1CF3), (0x1CF5, 0x1CF6),
     (0x1CFA, 0x1CFA), (0x1D00, 0x1DBF), (0x1E00, 0x1F15), (0x1F18, 0x1F1D), (0x1F20, 0x1F45),
     (0x1F48, 0x1F4D), (0x1F50, 0x1F57), (0x1F59, 0x1F59), (0x1F5B, 0x1F5B), (0x1F5D, 0x1F5D),
     (0x1F5F, 0x1F7D), (0x1F80, 0x1FB4), (0x1FB6, 0x1FBC), (0x1FBE, 0x1FBE), (0x1FC2, 0x1FC4),
     (0x1FC6, 0x1FCC), (0x1FD0, 0x1FD3), (0x1FD6, 0x1FDB), (0x1FE0, 0x1FEC), (0x1FF2, 0x1FF4),
     (0x1FF6, 0x1FFC), (0x2070, 0x2071), (0x2074, 0x2079), (0x207F, 0x2089), (0x2090, 0x209C),
     (0x2102, 0x2102), (0x2107, 0x2107), (0x210A, 0x2113), (0x2115, 0x2115), (0x2119, 0x211D),
     (0x2124, 0x2124), (0x2126, 0x2126), (0x2128, 0x2128), (0x212A, 0x212D), (0x212F, 0x2139),
     (0x213C, 0x213F), (0x2145, 0x2149), (0x214E, 0x214E), (0x2150, 0x2189), (0x2460, 0x249B),
     (0x24EA, 0x24FF), (0x2776, 0x2793), (0x2C00, 0x2CE4), (0x2CEB, 0x2CEE), (0x2CF2, 0x2CF3),
     (0x2CFD, 0x2CFD), (0x2D00, 0x2D25), (0x2D27, 0x2D27), (0x2D2D, 0x2D2D), (0x2D30, 0x2D67),
     (0x2D6F, 0x2D6F), (0x2D80, 0x2D96), (0x2DA0, 0x2DA6), (0x2DA8, 0x2DAE), (0x2DB0, 0x2DB6),
     (0x2DB8, 0x2DBE), (0x2DC0, 0x2DC6), (0x2DC8, 0x2DCE), (0x2DD0, 0x2DD6), (0x2DD8, 0x2DDE),
     (0x2E2F, 0x2E2F), (0x3005, 0x3007), (0x3021, 0x3029), (0x3031, 0x3035), (0x3038, 0x303C),
     (0x3041, 0x3096), (0x309D, 0x309F), (0x30A1, 0x30FA), (0x30FC, 0x30FF), (0x3105, 0x312F),
     (0x3131, 0x318E), (0x3192, 0x3195), (0x31A0, 0x31BF), (0x31F0, 0x31FF), (0x3220, 0x3229),
     (0x3248, 0x324F), (0x3251, 0x325F), (0x3280, 0x3289), (0x32B1, 0x32BF), (0x3400, 0x4DBF)]"

definition word_ranges_high :: "(nat \<times> nat) list" where
  "word_ranges_high =
    [(0xA4D0, 0xA4FD), (0xA500, 0xA60C), (0xA610, 0xA62B), (0xA640, 0xA66E), (0xA67F, 0xA69D),
     (0xA6A0, 0xA6EF), (0xA717, 0xA71F), (0xA722, 0xA788), (0xA78B, 0xA7CA), (0xA7D0, 0xA7D1),
     (0xA7D3, 0xA7D3), (0xA7D5, 0xA7D9), (0xA7F2, 0xA801), (0xA803, 0xA805), (0xA807, 0xA80A),
     (0xA80C, 0xA822), (0xA830, 0xA835), (0xA840, 0xA873), (0xA882, 0xA8B3), (0xA8D0, 0xA8D9),
     (0xA8F2, 0xA8F7), (0xA8FB, 0xA8FB), (0xA8FD, 0xA8FE), (0xA900, 0xA925), (0xA930, 0xA946),
     (0xA960, 0xA97C), (0xA984, 0xA9B2), (0xA9CF, 0xA9D9), (0xA9E0, 0xA9E4), (0xA9E6, 0xA9FE),
     (0xAA00, 0xAA28), (0xAA40, 0xAA42), (0xAA44, 0xAA4B), (0xAA50, 0xAA59), (0xAA60, 0xAA76),
     (0xAA7A, 0xAA7A), (0xAA7E, 0xAAAF), (0xAAB1, 0xAAB1), (0xAAB5, 0xAAB6), (0xAAB9, 0xAABD),
     (0xAAC0, 0xAAC0), (0xAAC2, 0xAAC2), (0xAADB, 0xAADD), (0xAAE0, 0xAAEA), (0xAAF2, 0xAAF4),
     (0xAB01, 0xAB06), (0xAB09, 0xAB0E), (0xAB11, 0xAB16), (0xAB20, 0xAB26), (0xAB28, 0xAB2E),
     (0xAB30, 0xAB5A), (0xAB5C, 0xAB69), (0xAB70, 0xABE2), (0xABF0, 0xABF9), (0xAC00, 0xD7A3),
     (0xD7B0, 0xD7C6), (0xD7CB, 0xD7FB), (0xF900, 0xFA6D), (0xFA70, 0xFAD9), (0xFB00, 0xFB06),
     (0xFB13, 0xFB17), (0xFB1D, 0xFB1D), (0xFB1F, 0xFB28), (0xFB2A, 0xFB36), (0xFB38, 0xFB3C),
     (0xFB3E, 0xFB3E), (0xFB40, 0xFB41), (0xFB43, 0xFB44), (0xFB46, 0xFBB1), (0xFBD3, 0xFD3D),
     (0xFD50, 0xFD8F), (0xFD92, 0xFDC7), (0xFDF0, 0xFDFB), (0xFE70, 0xFE74), (0xFE76, 0xFEFC),
     (0xFF10, 0xFF19), (0xFF21, 0xFF3A), (0xFF41, 0xFF5A), (0xFF66, 0xFFBE), (0xFFC2, 0xFFC7),
     (0xFFCA, 0xFFCF), (0xFFD2, 0xFFD7), (0xFFDA, 0xFFDC), (0x10000, 0x1000B),
     (0x1000D, 0x10026), (0x10028, 0x1003A), (0x1003C, 0x1003D), (0x1003F, 0x1004D),
     (0x10050, 0x1005D), (0x10080, 0x100FA), (0x10107, 0x10133), (0x10140, 0x10178),
     (0x1018A, 0x1018B), (0x10280, 0x1029C), (0x102A0, 0x102D0), (0x102E1, 0x102FB),
     (0x10300, 0x10323), (0x1032D, 0x1034A), (0x10350, 0x10375), (0x10380, 0x1039D),
     (0x103A0, 0x103C3), (0x103C8, 0x103CF), (0x103D1, 0x103D5), (0x10400, 0x1049D),
     (0x104A0, 0x104A9), (0x104B0, 0x104D3), (0x104D8, 0x104FB), (0x10500, 0x10527),
     (0x10530, 0x10563), (0x10570, 0x1057A), (0x1057C, 0x1058A), (0x1058C, 0x10592),
     (0x10594, 0x10595), (0x10597, 0x105A1), (0x105A3, 0x105B1), (0x105B3, 0x105B9),
     (0x105BB, 0x105BC), (0x10600, 0x10736), (0x10740, 0x10755), (0x10760, 0x10767),
     (0x10780, 0x10785), (0x10787, 0x107B0), (0x107B2, 0x107BA), (0x10800, 0x10805),
     (0x10808, 0x10808), (0x1080A, 0x10835), (0x10837, 0x10838), (0x1083C, 0x1083C),
     (0x1083F, 0x10855), (0x10858, 0x10876), (0x10879, 0x1089E), (0x108A7, 0x108AF),
     (0x108E0, 0x108F2), (0x108F4, 0x108F5), (0x108FB, 0x1091B), (0x10920, 0x10939),
     (0x10980, 0x109B7), (0x109BC, 0x109CF), (0x109D2, 0x10A00), (0x10A10, 0x10A13),
     (0x10A15, 0x10A17), (0x10A19, 0x10A35), (0x10A40, 0x10A48), (0x10A60, 0x10A7E),
     (0x10A80, 0x10A9F), (0x10AC0, 0x10AC7), (0x10AC9, 0x10AE4), (0x10AEB, 0x10AEF),
     (0x10B00, 0x10B35), (0x10B40, 0x10B55), (0x10B58, 0x10B72), (0x10B78, 0x10B91),
     (0x10BA9, 0x10BAF), (0x10C00, 0x10C48), (0x10C80, 0x10CB2), (0x10CC0, 0x10CF2),
     (0x10CFA, 0x10D23), (0x10D30, 0x10D39), (0x10E60, 0x10E7E), (0x10E80, 0x10EA9),
     (0x10EB0, 0x10EB1), (0x10F00, 0x10F27), (0x10F30, 0x10F45), (0x10F51, 0x10F54),
     (0x10F70, 0x10F81), (0x10FB0, 0x10FCB), (0x10FE0, 0x10FF6), (0x11003, 0x11037),
     (0x11052, 0x1106F), (0x11071, 0x11072), (0x11075, 0x11075), (0x11083, 0x110AF),
     (0x110D0, 0x110E8), (0x110F0, 0x110F9), (0x11103, 0x11126), (0x11136, 0x1113F),
     (0x11144, 0x11144), (0x11147, 0x11147), (0x11150, 0x11172), (0x11176, 0x11176),
     (0x11183, 0x111B2), (0x111C1, 0x111C4), (0x111D0, 0x111DA), (0x111DC, 0x111DC),
     (0x111E1, 0x111F4), (0x11200, 0x11211), (0x11213, 0x1122B), (0x11280, 0x11286),
     (0x11288, 0x11288), (0x1128A, 0x1128D), (0x1128F, 0x1129D), (0x1129F, 0x112A8),
     (0x112B0, 0x112DE), (0x112F0, 0x112F9), (0x11305, 0x1130C), (0x1130F, 0x11310),
     (0x11313, 0x11328), (0x1132A, 0x11330), (0x11332, 0x11333), (0x11335, 0x11339),
     (0x1133D, 0x1133D), (0x11350, 0x11350), (0x1135D, 0x11361), (0x11400, 0x11434),
     (0x11447, 0x1144A), (0x11450, 0x11459), (0x1145F, 0x11461), (0x11480, 0x114AF),
     (0x114C4, 0x114C5), (0x114C7, 0x114C7), (0x114D0, 0x114D9), (0x11580, 0x115AE),
     (0x115D8, 0x115DB), (0x11600, 0x1162F), (0x11644, 0x11644), (0x11650, 0x11659),
     (0x11680, 0x116AA), (0x116B8, 0x116B8), (0x116C0, 0x116C9), (0x11700, 0x1171A),
     (0x11730, 0x1173B), (0x11740, 0x11746), (0x11800, 0x1182B), (0x118A0, 0x118F2),
     (0x118FF, 0x11906), (0x11909, 0x11909), (0x1190C, 0x11913), (0x11915, 0x11916),
     (0x11918, 0x1192F), (0x1193F, 0x1193F), (0x11941, 0x11941), (0x11950, 0x11959),
     (0x119A0, 0x119A7), (0x119AA, 0x119D0), (0x119E1, 0x119E1), (0x119E3, 0x119E3),
     (0x11A00, 0x11A00), (0x11A0B, 0x11A32), (0x11A3A, 0x11A3A), (0x11A50, 0x11A50),
     (0x11A5C, 0x11A89), (0x11A9D, 0x11A9D), (0x11AB0, 0x11AF8), (0x11C00, 0x11C08),
     (0x11C0A, 0x11C2E), (0x11C40, 0x11C40), (0x11C50, 0x11C6C), (0x11C72, 0x11C8F),
     (0x11D00, 0x11D06), (0x11D08, 0x11D09), (0x11D0B, 0x11D30), (0x11D46, 0x11D46),
     (0x11D50, 0x11D59), (0x11D60, 0x11D65), (0x11D67, 0x11D68), (0x11D6A, 0x11D89),
     (0x11D98, 0x11D98), (0x11DA0, 0x11DA9), (0x11EE0, 0x11EF2), (0x11FB0, 0x11FB0),
     (0x11FC0, 0x11FD4), (0x12000, 0x12399), (0x12400, 0x1246E), (0x12480, 0x12543),
     (0x12F90, 0x12FF0), (0x13000, 0x1342E), (0x14400, 0x14646), (0x16800, 0x16A38),
     (0x16A40, 0x16A5E), (0x16A60, 0x16A69), (0x16A70, 0x16ABE), (0x16AC0, 0x16AC9),
     (0x16AD0, 0x16AED), (0x16B00, 0x16B2F), (0x16B40, 0x16B43), (0x16B50, 0x16B59),
     (0x16B5B, 0x16B61), (0x16B63, 0x16B77), (0x16B7D, 0x16B8F), (0x16E40, 0x16E96),
     (0x16F00, 0x16F4A), (0x16F50, 0x16F50), (0x16F93, 0x16F9F), (0x16FE0, 0x16FE1),
     (0x16FE3, 0x16FE3), (0x17000, 0x187F7), (0x18800, 0x18CD5), (0x18D00, 0x18D08),
     (0x1AFF0, 0x1AFF3), (0x1AFF5, 0x1AFFB), (0x1AFFD, 0x1AFFE), (0x1B000, 0x1B122),
     (0x1B150, 0x1B152), (0x1B164, 0x1B167), (0x1B170, 0x1B2FB), (0x1BC00, 0x1BC6A),
     (0x1BC70, 0x1BC7C), (0x1BC80, 0x1BC88), (0x1BC90, 0x1BC99), (0x1D2E0, 0x1D2F3),
     (0x1D360, 0x1D378), (0x1D400, 0x1D454), (0x1D456, 0x1D49C), (0x1D49E, 0x1D49F),
     (0x1D4A2, 0x1D4A2), (0x1D4A5, 0x1D4A6), (0x1D4A9, 0x1D4AC), (0x1D4AE, 0x1D4B9),
     (0x1D4BB, 0x1D4BB), (0x1D4BD, 0x1D4C3), (0x1D4C5, 0x1D505), (0x1D507, 0x1D50A),
     (0x1D50D, 0x1D514), (0x1D516, 0x1D51C), (0x1D51E, 0x1D539), (0x1D53B, 0x1D53E),
     (0x1D540, 0x1D544), (0x1D546, 0x1D546), (0x1D54A, 0x1D550), (0x1D552, 0x1D6A5),
     (0x1D6A8, 0x1D6C0), (0x1D6C2, 0x1D6DA), (0x1D6DC, 0x1D6FA), (0x1D6FC, 0x1D714),
     (0x1D716, 0x1D734), (0x1D736, 0x1D74E), (0x1D750, 0x1D76E), (0x1D770, 0x1D788),
     (0x1D78A, 0x1D7A8), (0x1D7AA, 0x1D7C2), (0x1D7C4, 0x1D7CB), (0x1D7CE, 0x1D7FF),
     (0x1DF00, 0x1DF1E), (0x1E100, 0x1E12C), (0x1E137, 0x1E13D), (0x1E140, 0x1E149),
     (0x1E14E, 0x1E14E), (0x1E290, 0x1E2AD), (0x1E2C0, 0x1E2EB), (0x1E2F0, 0x1E2F9),
     (0x1E7E0, 0x1E7E6), (0x1E7E8, 0x1E7EB), (0x1E7ED, 0x1E7EE), (0x1E7F0, 0x1E7FE),
     (0x1E800, 0x1E8C4), (0x1E8C7, 0x1E8CF), (0x1E900, 0x1E943), (0x1E94B, 0x1E94B),
     (0x1E950, 0x1E959), (0x1EC71, 0x1ECAB), (0x1ECAD, 0x1ECAF), (0x1ECB1, 0x1ECB4),
     (0x1ED01, 0x1ED2D), (0x1ED2F, 0x1ED3D), (0x1EE00, 0x1EE03), (0x1EE05, 0x1EE1F),
     (0x1EE21, 0x1EE22), (0x1EE24, 0x1EE24), (0x1EE27, 0x1EE27), (0x1EE29, 0x1EE32),
     (0x1EE34, 0x1EE37), (0x1EE39, 0x1EE39), (0x1EE3B, 0x1EE3B), (0x1EE42, 0x1EE42),
     (0x1EE47, 0x1EE47), (0x1EE49, 0x1EE49), (0x1EE4B, 0x1EE4B), (0x1EE4D, 0x1EE4F),
     (0x1EE51, 0x1EE52), (0x1EE54, 0x1EE54), (0x1EE57, 0x1EE57), (0x1EE59, 0x1EE59),
     (0x1EE5B, 0x1EE5B), (0x1EE5D, 0x1EE5D), (0x1EE5F, 0x1EE5F), (0x1EE61, 0x1EE62),
     (0x1EE64, 0x1EE64), (0x1EE67, 0x1EE6A), (0x1EE6C, 0x1EE72), (0x1EE74, 0x1EE77),
     (0x1EE79, 0x1EE7C), (0x1EE7E, 0x1EE7E), (0x1EE80, 0x1EE89), (0x1EE8B, 0x1EE9B),
     (0x1EEA1, 0x1EEA3), (0x1EEA5, 0x1EEA9), (0x1EEAB, 0x1EEBB), (0x1F100, 0x1F10C),
     (0x1FBF0, 0x1FBF9), (0x20000, 0x2A6DF), (0x2A700, 0x2B738), (0x2B740, 0x2B81D),
     (0x2B820, 0x2CEA1), (0x2CEB0, 0x2EBE0), (0x2F800, 0x2FA1D), (0x30000, 0x3134A)]"

definition word_char :: "nat \<Rightarrow> bool" where
  "word_char c =
     (if c < 0x4E00 then in_ranges c word_ranges_low
      else if c \<le> 0xA48C then True
      else in_ranges c word_ranges_high)"

section \<open>\<open>WeatherConfig.get_location\<close>\<close>

definition DEFAULT_LOCATION :: pystr where
  "DEFAULT_LOCATION = ascii ''Shanghai''"

definition weather_location_key :: pystr where
  "weather_location_key = ascii ''weather_location''"

text \<open>A subscript \<open>d[k]\<close> raises \<open>KeyError\<close> on a missing key; \<open>d.get(k)\<close> is the map itself.\<close>

datatype error = KeyError pystr

definition subscript :: "(pystr \<rightharpoonup> pystr) \<Rightarrow> pystr \<Rightarrow> error + pystr" where
  "subscript d k = (case d k of None \<Rightarrow> Inl (KeyError k) | Some v \<Rightarrow> Inr v)"

text \<open>
  Step 1 of \<open>get_location\<close>: \<open>if message:\<close> (neither \<open>None\<close> nor empty), then
  \<open>location = cls._extract_from_message(message)\<close> and \<open>if location: return location\<close>.
  The result is the value returned early, if any.
\<close>

definition message_step :: "(nat \<Rightarrow> bool) \<Rightarrow> (pystr \<rightharpoonup> pystr) \<Rightarrow> pystr option \<Rightarrow> pystr option" where
  "message_step w city_map message =
     (case message of
        None \<Rightarrow> None
      | Some msg \<Rightarrow>
          if truthy msg
          then (case WeatherConfig_extract_from_message w city_map msg of
                  None \<Rightarrow> None
                | Some location \<Rightarrow> if truthy location then Some location else None)
          else None)"

text \<open>
  \<open>get_location(cls, user_id, message=None)\<close>. \<open>cls._get_user_config\<close> is not in the
  source: it is the argument \<open>get_user_config\<close>, from a user id to that user's dict.
\<close>

definition WeatherConfig_get_location ::
  "(nat \<Rightarrow> bool) \<Rightarrow> (pystr \<rightharpoonup> pystr) \<Rightarrow> (int \<Rightarrow> (pystr \<rightharpoonup> pystr)) \<Rightarrow> int \<Rightarrow> pystr option
     \<Rightarrow> error + pystr" where
  "WeatherConfig_get_location w city_map get_user_config user_id message =
     (case message_step w city_map message of
        Some location \<Rightarrow> Inr location
      | None \<Rightarrow>
          (let user_config = get_user_config user_id in
           case user_config weather_location_key of
             None \<Rightarrow> Inr DEFAULT_LOCATION
           | Some v \<Rightarrow>
               if truthy v then subscript user_config weather_location_key
               else Inr DEFAULT_LOCATION))"

subsection \<open>The same function with the tier of each \<open>return\<close>\<close>

datatype sourceTier = FromMessage | FromUserConfig | FromSystemDefault

record ResolutionResult =
  canonicalLocation :: pystr
  sourceTier :: sourceTier

text \<open>
  \<open>resolve\<close> is \<open>get_location\<close> with each of its three \<open>return\<close> statements labelled by
  the tier it stands for.
\<close>

definition resolve ::
  "(nat \<Rightarrow> bool) \<Rightarrow> (pystr \<rightharpoonup> pystr) \<Rightarrow> (int \<Rightarrow> (pystr \<rightharpoonup> pystr)) \<Rightarrow> int \<Rightarrow> pystr option
     \<Rightarrow> error + ResolutionResult" where
  "resolve w city_map get_user_config user_id message =
     (case message_step w city_map message of
        Some location \<Rightarrow>
          Inr \<lparr>canonicalLocation = location, sourceTier = FromMessage\<rparr>
      | None \<Rightarrow>
          (let user_config = get_user_config user_id in
           case user_config weather_location_key of
             None \<Rightarrow>
               Inr \<lparr>canonicalLocation = DEFAULT_LOCATION, sourceTier = FromSystemDefault\<rparr>
           | Some v \<Rightarrow>
               if truthy v
               then (case subscript user_config weather_location_key of
                       Inl e \<Rightarrow> Inl e
                     | Inr location \<Rightarrow>
                         Inr \<lparr>canonicalLocation = location, sourceTier = FromUserConfig\<rparr>)
               else Inr \<lparr>canonicalLocation = DEFAULT_LOCATION,
                          sourceTier = FromSystemDefault\<rparr>))"

text \<open>
  The spec's test fixture \<open>lookupReturning\<close>: a config store that holds the given
  location for every user, or none.
\<close>

definition lookupReturning :: "pystr option \<Rightarrow> int \<Rightarrow> (pystr \<rightharpoonup> pystr)" where
  "lookupReturning stored user_id =
     (case stored of None \<Rightarrow> Map.empty | Some location \<Rightarrow> [weather_location_key \<mapsto> location])"

section \<open>Auxiliary definitions for the statements\<close>

text \<open>
  The tail \<^verbatim>\<open>[shi qu xian]?de?tianqi\<close> of the fourth pattern matches at the front of a
  string exactly when the string starts with the two characters of "weather", optionally
  after the particle, optionally after one of the three unit characters.
\<close>

definition weather_tail_at :: "pystr \<Rightarrow> bool" where
  "weather_tail_at s =
     (starts_with [zh_tian, zh_qi] s \<or> starts_with [zh_de, zh_tian, zh_qi] s \<or>
      (case s of [] \<Rightarrow> False
       | y # ys \<Rightarrow> y \<in> set [zh_shi, zh_district, zh_xian] \<and>
                   (starts_with [zh_tian, zh_qi] ys \<or> starts_with [zh_de, zh_tian, zh_qi] ys)))"

text \<open>The match object the loop of \<open>_extract_from_message\<close> acts on: that of the first
  pattern, in list order, that matches.\<close>

fun first_match :: "(nat \<Rightarrow> bool) \<Rightarrow> re list \<Rightarrow> pystr \<Rightarrow> rematch option" where
  "first_match w [] message = None"
| "first_match w (pattern # rest) message =
     (case search w pattern message of
        Some m \<Rightarrow> Some m
      | None \<Rightarrow> first_match w rest message)"

text \<open>
  The spec's \<open>findLongestMatch\<close>, from its words: among the registered entries whose name
  occurs in the text, the one with the longest name, the earliest registered on a tie.
\<close>

fun pick_longest :: "(pystr \<times> pystr) list \<Rightarrow> (pystr \<times> pystr) option" where
  "pick_longest [] = None"
| "pick_longest (e # es) =
     (case pick_longest es of
        None \<Rightarrow> Some e
      | Some b \<Rightarrow> if length (fst e) < length (fst b) then Some b else Some e)"

definition findLongestMatch_spec :: "(pystr \<times> pystr) list \<Rightarrow> pystr \<Rightarrow> (pystr \<times> pystr) option" where
  "findLongestMatch_spec entries text = pick_longest (filter (\<lambda>e. str_in (fst e) text) entries)"

text \<open>
  The messages of the examples, as code points: "today walking by the West Lake in
  Hangzhou" (spec) and the same followed by ", the weather is really fine" (design note,
  section 2), "came to Beijing on business, the
  weather is cold" (design note, section 7), "going to Shanghai, leaving Beijing",
  "at home, going to Beijing", "in Beijing", "playing in Beijing", the name
  "Shanghai Pudong", and "today Beijing weather".
\<close>

definition msg_hangzhou_walk :: pystr where
  "msg_hangzhou_walk = [0x4ECA, 0x5929, 0x5728, 0x676D, 0x5DDE, 0x897F, 0x6E56, 0x8FB9, 0x6563, 0x6B65]"

definition msg_hangzhou_walk_fine :: pystr where
  "msg_hangzhou_walk_fine = msg_hangzhou_walk @ [0xFF0C, 0x5929, 0x6C14, 0x771F, 0x597D]"

definition msg_beijing_trip :: pystr where
  "msg_beijing_trip =
     [0x6765, 0x5317, 0x4EAC, 0x51FA, 0x5DEE, 0x4E86, 0xFF0C, 0x5929, 0x6C14, 0x597D, 0x51B7]"

definition msg_to_shanghai_from_beijing :: pystr where
  "msg_to_shanghai_from_beijing = [0x53BB, 0x4E0A, 0x6D77, 0xFF0C, 0x79BB, 0x5F00, 0x5317, 0x4EAC]"

definition msg_home_then_beijing :: pystr where
  "msg_home_then_beijing = [0x5728, 0x5BB6, 0xFF0C, 0x53BB, 0x5317, 0x4EAC]"

definition msg_in_beijing :: pystr where
  "msg_in_beijing = [0x5728, 0x5317, 0x4EAC]"

definition msg_in_beijing_playing :: pystr where
  "msg_in_beijing_playing = [0x5728, 0x5317, 0x4EAC, 0x73A9]"

definition name_shanghai_pudong :: pystr where
  "name_shanghai_pudong = [0x4E0A, 0x6D77, 0x6D66, 0x4E1C]"

definition msg_today_beijing_weather :: pystr where
  "msg_today_beijing_weather = [0x4ECA, 0x5929, 0x5317, 0x4EAC, 0x5929, 0x6C14]"

text \<open>
  Messages with two cues or two runs: "going to Beijing to play, in Shanghai", "in
  Shanghai, in Beijing playing", "Shanghai weather, today Beijing weather", "in Shanghai
  Pudong", and "in, today Beijing weather".
\<close>

definition msg_go_beijing_play_in_shanghai :: pystr where
  "msg_go_beijing_play_in_shanghai =
     [0x53BB, 0x5317, 0x4EAC, 0x73A9, 0xFF0C, 0x5728, 0x4E0A, 0x6D77]"

definition msg_in_shanghai_in_beijing_play :: pystr where
  "msg_in_shanghai_in_beijing_play =
     [0x5728, 0x4E0A, 0x6D77, 0xFF0C, 0x5728, 0x5317, 0x4EAC, 0x73A9]"

definition msg_shanghai_weather_today_beijing_weather :: pystr where
  "msg_shanghai_weather_today_beijing_weather =
     [0x4E0A, 0x6D77, 0x5929, 0x6C14, 0xFF0C, 0x4ECA, 0x5929, 0x5317, 0x4EAC, 0x5929, 0x6C14]"

definition msg_in_shanghai_pudong :: pystr where
  "msg_in_shanghai_pudong = [0x5728, 0x4E0A, 0x6D77, 0x6D66, 0x4E1C]"

definition msg_in_comma_today_beijing_weather :: pystr where
  "msg_in_comma_today_beijing_weather =
     [0x5728, 0xFF0C, 0x4ECA, 0x5929, 0x5317, 0x4EAC, 0x5929, 0x6C14]"

section \<open>Lemmas on the matcher\<close>

lemma word_char_ideograph: "0x4E00 \<le> c \<Longrightarrow> c \<le> 0x9FFF \<Longrightarrow> word_char c"
  by (simp add: word_char_def)

lemma word_char_fullwidth_comma: "\<not> word_char 0xFF0C"
  by (simp add: word_char_def word_ranges_high_def)

lemmas word_char_eval = word_char_ideograph word_char_fullwidth_comma

lemmas zh_defs = zh_zai_def zh_qu_def zh_dao_def zh_shi_def zh_district_def zh_xian_def
  zh_de_def zh_tian_def zh_qi_def

lemma starts_with_Cons: "starts_with (a # p) s = (case s of [] \<Rightarrow> False | y # ys \<Rightarrow> a = y \<and> starts_with p ys)"
  by (cases s) auto

lemma take_length_dropWhile:
  "take (length s - length (dropWhile P s)) s = takeWhile P s"
  by (induction s) (auto simp: Suc_diff_le length_dropWhile_le)

lemma plus_total_cont:
  assumes "\<And>s'. k s' g \<noteq> None"
  shows "bt w (Plus c) k s g =
           (if takeWhile (accepts w c) s = [] then None else k (dropWhile (accepts w c) s) g)"
proof (induction s)
  case Nil
  show ?case by simp
next
  case (Cons x xs)
  show ?case
  proof (cases "accepts w c x")
    case False
    then show ?thesis by simp
  next
    case True
    show ?thesis
    proof (cases "takeWhile (accepts w c) xs = []")
      case True
      with \<open>accepts w c x\<close> Cons show ?thesis
        by (cases xs) (auto split: if_splits)
    next
      case False
      with \<open>accepts w c x\<close> Cons assms [of "dropWhile (accepts w c) xs"] show ?thesis
        by (auto split: option.splits)
    qed
  qed
qed

lemma suffix_set_total: "bt w suffix_set (\<lambda>s' g. Some (Match g)) s g = Some (Match g)"
  by (cases s) (auto simp: suffix_set_def)

lemma match_here_cue:
  "match_here w (cue_pattern c) s =
     (case s of [] \<Rightarrow> None
      | y # ys \<Rightarrow> if y = c \<and> takeWhile w ys \<noteq> []
                  then Some (Match (Some (takeWhile w ys))) else None)"
proof (cases s)
  case Nil
  then show ?thesis by (simp add: match_here_def cue_pattern_def)
next
  case (Cons y ys)
  have tot: "\<And>s'. (\<lambda>s' g'. bt w suffix_set (\<lambda>s' g. Some (Match g)) s'
                 (Some (take (length ys - length s') ys))) s' None \<noteq> None"
    by (simp add: suffix_set_total)
  have "bt w (Plus Word) (\<lambda>s' g'. bt w suffix_set (\<lambda>s' g. Some (Match g)) s'
                 (Some (take (length ys - length s') ys))) ys None
        = (if takeWhile w ys = [] then None else Some (Match (Some (takeWhile w ys))))"
    using plus_total_cont [of "\<lambda>s' g'. bt w suffix_set (\<lambda>s' g. Some (Match g)) s'
                 (Some (take (length ys - length s') ys))" None w Word ys]
    by (simp add: suffix_set_total take_length_dropWhile cong: takeWhile_cong dropWhile_cong)
  then show ?thesis using Cons
    by (simp add: match_here_def cue_pattern_def)
qed

lemma plus_none_iff:
  "bt w (Plus c) k s g = None \<longleftrightarrow>
     (\<forall>j. 0 < j \<and> j \<le> length (takeWhile (accepts w c) s) \<longrightarrow> k (drop j s) g = None)"
proof (induction s)
  case Nil
  show ?case by simp
next
  case (Cons x xs)
  show ?case
  proof (cases "accepts w c x")
    case False
    then show ?thesis by simp
  next
    case True
    let ?m = "length (takeWhile (accepts w c) xs)"
    have "bt w (Plus c) k (x # xs) g = None \<longleftrightarrow>
            bt w (Plus c) k xs g = None \<and> k xs g = None"
      using True by (auto split: option.splits)
    also have "\<dots> \<longleftrightarrow> (\<forall>j. j \<le> ?m \<longrightarrow> k (drop j xs) g = None)"
    proof
      assume a: "bt w (Plus c) k xs g = None \<and> k xs g = None"
      show "\<forall>j. j \<le> ?m \<longrightarrow> k (drop j xs) g = None"
      proof (intro allI impI)
        fix j assume "j \<le> ?m"
        then show "k (drop j xs) g = None" using a Cons by (cases j) auto
      qed
    next
      assume a: "\<forall>j. j \<le> ?m \<longrightarrow> k (drop j xs) g = None"
      then have "k (drop 0 xs) g = None" by blast
      then show "bt w (Plus c) k xs g = None \<and> k xs g = None" using a Cons by simp
    qed
    also have "\<dots> \<longleftrightarrow> (\<forall>j. 0 < j \<and> j \<le> Suc ?m \<longrightarrow> k (drop j (x # xs)) g = None)"
    proof
      assume a: "\<forall>j. j \<le> ?m \<longrightarrow> k (drop j xs) g = None"
      show "\<forall>j. 0 < j \<and> j \<le> Suc ?m \<longrightarrow> k (drop j (x # xs)) g = None"
      proof (intro allI impI)
        fix j assume "0 < j \<and> j \<le> Suc ?m"
        then show "k (drop j (x # xs)) g = None" using a by (cases j) auto
      qed
    next
      assume a: "\<forall>j. 0 < j \<and> j \<le> Suc ?m \<longrightarrow> k (drop j (x # xs)) g = None"
      show "\<forall>j. j \<le> ?m \<longrightarrow> k (drop j xs) g = None"
      proof (intro allI impI)
        fix j assume "j \<le> ?m"
        then show "k (drop j xs) g = None" using a [rule_format, of "Suc j"] by simp
      qed
    qed
    finally show ?thesis using True by simp
  qed
qed

lemma plus_some:
  "bt w (Plus c) k s g = Some r \<Longrightarrow>
     \<exists>j. 0 < j \<and> j \<le> length (takeWhile (accepts w c) s) \<and> k (drop j s) g = Some r \<and>
         (\<forall>j'. j < j' \<and> j' \<le> length (takeWhile (accepts w c) s) \<longrightarrow> k (drop j' s) g = None)"
proof (induction s)
  case Nil
  then show ?case by simp
next
  case (Cons x xs)
  let ?m = "length (takeWhile (accepts w c) xs)"
  from Cons.prems have acc: "accepts w c x" by (auto split: if_splits)
  show ?case
  proof (cases "bt w (Plus c) k xs g")
    case (Some r')
    with Cons.prems acc have "r' = r" by simp
    with Some Cons.IH obtain j where j: "0 < j" "j \<le> ?m" "k (drop j xs) g = Some r"
      "\<forall>j'. j < j' \<and> j' \<le> ?m \<longrightarrow> k (drop j' xs) g = None" by blast
    have "\<forall>j'. Suc j < j' \<and> j' \<le> Suc ?m \<longrightarrow> k (drop j' (x # xs)) g = None"
    proof (intro allI impI)
      fix j' assume "Suc j < j' \<and> j' \<le> Suc ?m"
      then show "k (drop j' (x # xs)) g = None" using j(4) by (cases j') auto
    qed
    with j acc show ?thesis by (intro exI [of _ "Suc j"]) simp
  next
    case None
    with Cons.prems acc have r: "k xs g = Some r" by simp
    have "\<forall>j'. 1 < j' \<and> j' \<le> Suc ?m \<longrightarrow> k (drop j' (x # xs)) g = None"
    proof (intro allI impI)
      fix j' assume "1 < j' \<and> j' \<le> Suc ?m"
      then show "k (drop j' (x # xs)) g = None"
        using None [unfolded plus_none_iff] by (cases j') auto
    qed
    with r acc show ?thesis by (intro exI [of _ 1]) simp
  qed
qed

lemma lit2: "bt w (Cat (Atom (Lit a)) (Atom (Lit b))) (\<lambda>s' g. Some (Match g)) s g =
    (if starts_with [a, b] s then Some (Match g) else None)"
proof (cases s)
  case Nil then show ?thesis by simp
next
  case (Cons y ys)
  then show ?thesis by (cases ys) auto
qed

lemma optlit3: "bt w (Cat (Opt (Atom (Lit d))) (Cat (Atom (Lit a)) (Atom (Lit b)))) (\<lambda>s' g. Some (Match g)) s g =
    (if starts_with [d, a, b] s \<or> starts_with [a, b] s then Some (Match g) else None)"
proof -
  define R where "R = Cat (Atom (Lit a)) (Atom (Lit b))"
  have R: "\<And>s g. bt w R (\<lambda>s' g. Some (Match g)) s g =
             (if starts_with [a, b] s then Some (Match g) else None)"
    unfolding R_def by (rule lit2)
  have "bt w (Cat (Opt (Atom (Lit d))) R) (\<lambda>s' g. Some (Match g)) s g =
          (if starts_with [d, a, b] s \<or> starts_with [a, b] s then Some (Match g) else None)"
    by (cases s) (auto simp: R)
  then show ?thesis unfolding R_def .
qed

lemma weather_tail_bt:
  "bt w weather_tail (\<lambda>s' g. Some (Match g)) s g =
     (if weather_tail_at s then Some (Match g) else None)"
proof -
  define R where "R = Cat (Opt (Atom (Lit zh_de))) (Cat (Atom (Lit zh_tian)) (Atom (Lit zh_qi)))"
  have R: "\<And>s g. bt w R (\<lambda>s' g. Some (Match g)) s g =
     (if starts_with [zh_de, zh_tian, zh_qi] s \<or> starts_with [zh_tian, zh_qi] s
      then Some (Match g) else None)"
    unfolding R_def by (rule optlit3)
  have "bt w (Cat suffix_set R) (\<lambda>s' g. Some (Match g)) s g =
     (if weather_tail_at s then Some (Match g) else None)"
  proof (cases s)
    case Nil
    then show ?thesis by (simp add: R suffix_set_def weather_tail_at_def)
  next
    case (Cons y ys)
    then show ?thesis by (simp add: R suffix_set_def weather_tail_at_def del: starts_with.simps)
  qed
  then show ?thesis unfolding R_def weather_tail_def .
qed


lemma weather_tail_at_tian: "weather_tail_at s \<Longrightarrow> zh_tian \<in> set s"
proof (cases s)
  case Nil
  assume "weather_tail_at s" with Nil show ?thesis by (simp add: weather_tail_at_def)
next
  case (Cons y ys)
  assume a: "weather_tail_at s"
  show ?thesis
  proof (cases ys)
    case Nil
    with a Cons show ?thesis by (simp add: weather_tail_at_def)
  next
    case (Cons z zs)
    with a \<open>s = y # ys\<close> show ?thesis
      by (cases zs) (auto simp: weather_tail_at_def)
  qed
qed

lemma accepts_Word: "accepts w Word = w"
  by (rule ext) simp

lemma match_here_weather_unfold:
  "match_here w weather_pattern s =
     bt w (Plus Word)
       (\<lambda>s' g'. if weather_tail_at s' then Some (Match (Some (take (length s - length s') s)))
                 else None) s None"
  by (simp add: match_here_def weather_pattern_def weather_tail_bt)

lemma match_here_weather_none:
  "match_here w weather_pattern s = None \<longleftrightarrow>
     (\<forall>j. 0 < j \<and> j \<le> length (takeWhile w s) \<longrightarrow> \<not> weather_tail_at (drop j s))"
  unfolding match_here_weather_unfold plus_none_iff accepts_Word by auto

lemma match_here_weather_some:
  assumes "match_here w weather_pattern s = Some m"
  shows "\<exists>j. 0 < j \<and> j \<le> length (takeWhile w s) \<and> weather_tail_at (drop j s) \<and>
             m = Match (Some (take j s)) \<and>
             (\<forall>j'. j < j' \<and> j' \<le> length (takeWhile w s) \<longrightarrow> \<not> weather_tail_at (drop j' s))"
proof -
  from plus_some [OF assms [unfolded match_here_weather_unfold], unfolded accepts_Word]
  obtain j where j: "0 < j" "j \<le> length (takeWhile w s)"
    "(if weather_tail_at (drop j s) then Some (Match (Some (take (length s - length (drop j s)) s)))
      else None) = Some m"
    "\<forall>j'. j < j' \<and> j' \<le> length (takeWhile w s) \<longrightarrow>
        (if weather_tail_at (drop j' s)
         then Some (Match (Some (take (length s - length (drop j' s)) s))) else None) = None"
    by auto
  have "j \<le> length s" using j(2) length_takeWhile_le [of w s] by linarith
  then have "length s - length (drop j s) = j" by simp
  with j show ?thesis by (intro exI [of _ j]) (auto split: if_splits)
qed

lemma search_none_subset:
  "(\<And>t. set t \<subseteq> set s \<Longrightarrow> match_here w r t = None) \<Longrightarrow> search w r s = None"
proof (induction s)
  case Nil
  then show ?case by simp
next
  case (Cons x xs)
  have "match_here w r (x # xs) = None" using Cons.prems by simp
  moreover have "search w r xs = None"
  proof (rule Cons.IH)
    fix t assume "set t \<subseteq> set xs"
    then show "match_here w r t = None" using Cons.prems [of t] by auto
  qed
  ultimately show ?case by simp
qed

lemma search_cue_absent: "c \<notin> set s \<Longrightarrow> search w (cue_pattern c) s = None"
proof (rule search_none_subset)
  fix t assume "c \<notin> set s" "set t \<subseteq> set s"
  then show "match_here w (cue_pattern c) t = None"
    by (cases t) (auto simp: match_here_cue)
qed

lemma search_weather_absent: "zh_tian \<notin> set s \<Longrightarrow> search w weather_pattern s = None"
proof (rule search_none_subset)
  fix t assume a: "zh_tian \<notin> set s" "set t \<subseteq> set s"
  show "match_here w weather_pattern t = None"
    unfolding match_here_weather_none
  proof (intro allI impI)
    fix j
    have "set (drop j t) \<subseteq> set t" by (rule set_drop_subset)
    with a have "zh_tian \<notin> set (drop j t)" by blast
    then show "\<not> weather_tail_at (drop j t)" using weather_tail_at_tian by blast
  qed
qed

lemma search_cue_skip:
  "c \<notin> set pre \<Longrightarrow> search w (cue_pattern c) (pre @ s) = search w (cue_pattern c) s"
  by (induction pre) (auto simp: match_here_cue)

lemma search_cue_found:
  assumes "c \<notin> set pre" "takeWhile w s \<noteq> []"
  shows "search w (cue_pattern c) (pre @ c # s) = Some (Match (Some (takeWhile w s)))"
  using assms by (simp add: search_cue_skip match_here_cue)

lemma match_here_weather_nonword: "\<not> w a \<Longrightarrow> match_here w weather_pattern (a # t) = None"
  by (simp add: match_here_weather_none)

lemma search_weather_skip:
  "list_all (\<lambda>y. \<not> w y) pre \<Longrightarrow> search w weather_pattern (pre @ s) = search w weather_pattern s"
  by (induction pre) (simp_all add: match_here_weather_nonword)

lemma extract_loop_first:
  assumes "\<forall>q\<in>set ps1. search w q msg = None" "search w p msg = Some m"
  shows "extract_loop w cm (ps1 @ p # ps2) msg = city_get cm (group1 m)"
  using assms by (induction ps1) auto

lemma extract_loop_none:
  assumes "\<forall>q\<in>set ps. search w q msg = None"
  shows "extract_loop w cm ps msg = None"
  using assms by (induction ps) auto

section \<open>Lemmas on the extraction loop, the scan and the tiers\<close>

lemmas msg_defs = msg_hangzhou_walk_def msg_hangzhou_walk_fine_def msg_beijing_trip_def msg_to_shanghai_from_beijing_def
  msg_home_then_beijing_def msg_in_beijing_def msg_in_beijing_playing_def

lemmas pattern_defs = patterns_def cue_pattern_def weather_pattern_def weather_tail_def
  suffix_set_def match_here_def zh_defs

lemmas eval_defs = resolve_def message_step_def truthy_def
  WeatherConfig_extract_from_message_def pattern_defs word_char_eval lookupReturning_def
  DEFAULT_LOCATION_def city_get_def CITY_MAP_def LOCATION_KEYWORDS_def weather_location_key_def
  subscript_def ascii_def extract_location_from_message_def

lemma extract_loop_first_match:
  "extract_loop w cm ps msg =
     (case first_match w ps msg of None \<Rightarrow> None | Some m \<Rightarrow> city_get cm (group1 m))"
  by (induction ps) (auto split: option.splits)

lemma first_match_in:
  "first_match w ps msg = Some m \<Longrightarrow> \<exists>p\<in>set ps. search w p msg = Some m"
  by (induction ps) (auto split: option.splits)

lemma resolve_message_none:
  "message_step w cm (Some msg) = None \<Longrightarrow>
     resolve w cm guc uid (Some msg) = resolve w cm guc uid None"
  by (simp add: resolve_def message_step_def)

lemma message_step_extract_none:
  "WeatherConfig_extract_from_message w cm msg = None \<Longrightarrow> message_step w cm (Some msg) = None"
  by (simp add: message_step_def)

lemma resolve_None_tier:
  "\<exists>r. resolve w cm guc uid None = Inr r \<and> sourceTier r \<noteq> FromMessage"
  by (simp add: resolve_def message_step_def subscript_def Let_def split: option.splits)

lemma pick_longest_mem: "pick_longest es = Some b \<Longrightarrow> b \<in> set es"
  by (induction es arbitrary: b) (auto split: option.splits if_splits)

lemma keyword_scan_find:
  "keyword_scan entries text = map_option snd (find (\<lambda>e. str_in (fst e) text) entries)"
  by (induction entries) auto

lemma keyword_scan_sorted:
  "sorted_wrt (\<lambda>a b. length (fst b) \<le> length (fst a)) entries \<Longrightarrow>
     keyword_scan entries text = map_option snd (findLongestMatch_spec entries text)"
proof (induction entries)
  case Nil
  show ?case by (simp add: findLongestMatch_spec_def)
next
  case (Cons e es)
  obtain cn en where e: "e = (cn, en)" by (cases e)
  from Cons have IH: "keyword_scan es text = map_option snd (findLongestMatch_spec es text)"
    by simp
  show ?case
  proof (cases "str_in cn text")
    case False
    with IH e show ?thesis by (simp add: findLongestMatch_spec_def)
  next
    case True
    have "pick_longest (e # filter (\<lambda>e. str_in (fst e) text) es) = Some e"
    proof (cases "pick_longest (filter (\<lambda>e. str_in (fst e) text) es)")
      case None
      then show ?thesis by simp
    next
      case (Some b)
      then have "b \<in> set es" using pick_longest_mem by fastforce
      with Cons.prems have "length (fst b) \<le> length (fst e)" by auto
      with Some show ?thesis by simp
    qed
    with True e show ?thesis by (simp add: findLongestMatch_spec_def)
  qed
qed

lemma keyword_scan_none:
  "keyword_scan entries text = None \<longleftrightarrow> (\<forall>e\<in>set entries. \<not> str_in (fst e) text)"
  by (induction entries) (auto split: if_splits)

lemma pick_longest_None: "pick_longest es = None \<longleftrightarrow> es = []"
  by (induction es) (auto split: option.splits)

lemma extract_none_absent:
  assumes "zh_zai \<notin> set s" "zh_qu \<notin> set s" "zh_dao \<notin> set s" "zh_tian \<notin> set s"
  shows "WeatherConfig_extract_from_message w cm s = None"
proof -
  have "\<forall>q\<in>set patterns. search w q s = None"
    using assms by (simp add: patterns_def search_cue_absent search_weather_absent)
  then show ?thesis
    unfolding WeatherConfig_extract_from_message_def by (rule extract_loop_none)
qed

lemma pick_longest_max:
  "pick_longest es = Some b \<Longrightarrow> e \<in> set es \<Longrightarrow> length (fst e) \<le> length (fst b)"
  by (induction es arbitrary: b) (auto simp: pick_longest_None split: option.splits if_splits)

lemma findLongestMatch_spec_longest:
  assumes "findLongestMatch_spec entries t = Some b"
  shows "b \<in> set entries \<and> str_in (fst b) t \<and>
         (\<forall>e\<in>set entries. str_in (fst e) t \<longrightarrow> length (fst e) \<le> length (fst b))"
proof -
  from assms have p: "pick_longest (filter (\<lambda>e. str_in (fst e) t) entries) = Some b"
    by (simp add: findLongestMatch_spec_def)
  from pick_longest_mem [OF p] have "b \<in> set entries \<and> str_in (fst b) t" by simp
  moreover have "\<forall>e\<in>set entries. str_in (fst e) t \<longrightarrow> length (fst e) \<le> length (fst b)"
    using pick_longest_max [OF p] by simp
  ultimately show ?thesis by blast
qed

lemma isspace_not_cue:
  "list_all isspace s \<Longrightarrow>
     zh_zai \<notin> set s \<and> zh_qu \<notin> set s \<and> zh_dao \<notin> set s \<and> zh_tian \<notin> set s"
  by (induction s) (auto simp: isspace_def zh_defs)

lemma message_step_Some:
  "message_step w cm message = Some loc \<Longrightarrow>
     loc \<noteq> [] \<and> (\<exists>msg. message = Some msg \<and> msg \<noteq> [] \<and>
                      WeatherConfig_extract_from_message w cm msg = Some loc)"
  by (auto simp: message_step_def truthy_def split: option.splits if_splits)

lemma resolve_cases:
  "resolve w cm guc uid message =
     (case message_step w cm message of
        Some loc \<Rightarrow> Inr \<lparr>canonicalLocation = loc, sourceTier = FromMessage\<rparr>
      | None \<Rightarrow>
          (case guc uid weather_location_key of
             None \<Rightarrow> Inr \<lparr>canonicalLocation = DEFAULT_LOCATION, sourceTier = FromSystemDefault\<rparr>
           | Some v \<Rightarrow>
               if v \<noteq> [] then Inr \<lparr>canonicalLocation = v, sourceTier = FromUserConfig\<rparr>
               else Inr \<lparr>canonicalLocation = DEFAULT_LOCATION, sourceTier = FromSystemDefault\<rparr>))"
  by (simp add: resolve_def truthy_def subscript_def Let_def split: option.splits)

lemma DEFAULT_LOCATION_nonempty: "DEFAULT_LOCATION \<noteq> []"
  by (simp add: DEFAULT_LOCATION_def ascii_def)

lemma takeWhile_run:
  "list_all w run \<Longrightarrow> takeWhile w (run @ t) = run @ takeWhile w t"
  by (induction run) auto

lemma weather_tail_at_tianqi: "weather_tail_at (zh_tian # zh_qi # rest)"
  by (simp add: weather_tail_at_def)

lemma search_weather_run:
  assumes run: "list_all w run" "run \<noteq> []" and pre: "list_all (\<lambda>y. \<not> w y) pre"
  shows "\<exists>cap. search w weather_pattern (pre @ run @ zh_tian # zh_qi # rest)
                  = Some (Match (Some cap)) \<and>
               take (length run) cap = run \<and> length run \<le> length cap"
proof -
  let ?s = "run @ zh_tian # zh_qi # rest"
  let ?m = "length (takeWhile w ?s)"
  have len: "length run \<le> ?m" using run(1) by (simp add: takeWhile_run)
  have pos: "0 < length run" using run(2) by simp
  have tail: "weather_tail_at (drop (length run) ?s)"
    by (simp add: weather_tail_at_tianqi)
  have "match_here w weather_pattern ?s \<noteq> None"
    unfolding match_here_weather_none using len pos tail by blast
  then obtain m where m: "match_here w weather_pattern ?s = Some m" by blast
  from match_here_weather_some [OF m] obtain j where
    j: "0 < j" "j \<le> ?m" "m = Match (Some (take j ?s))"
       "\<forall>j'. j < j' \<and> j' \<le> ?m \<longrightarrow> \<not> weather_tail_at (drop j' ?s)"
    by blast
  have ge: "length run \<le> j"
  proof (rule ccontr)
    assume "\<not> length run \<le> j"
    then have "j < length run \<and> length run \<le> ?m" using len by simp
    with j(4) tail show False by blast
  qed
  have "?m \<le> length ?s" by (rule length_takeWhile_le)
  with j(2) have jl: "j \<le> length ?s" by linarith
  obtain y ys where s: "?s = y # ys" using run(2) by (cases ?s) auto
  have "search w weather_pattern ?s = Some m"
    unfolding s using m [unfolded s] by simp
  then have 1: "search w weather_pattern (pre @ ?s) = Some (Match (Some (take j ?s)))"
    using search_weather_skip [OF pre, of ?s] j(3) by simp
  have 2: "take (length run) (take j ?s) = run" using ge by (simp add: min_absorb1)
  have 3: "length run \<le> length (take j ?s)" using ge jl by simp
  from 1 2 3 show ?thesis by blast
qed

lemmas msg_defs2 = msg_go_beijing_play_in_shanghai_def msg_in_shanghai_in_beijing_play_def
  msg_shanghai_weather_today_beijing_weather_def msg_in_shanghai_pudong_def
  msg_in_comma_today_beijing_weather_def

lemma all_less_two: "(\<forall>i<Suc (Suc 0). P i) \<longleftrightarrow> P 0 \<and> P (Suc 0)"
  by (auto simp: less_Suc_eq)

lemma starts_with_append: "starts_with xs (xs @ ss)"
  by (induction xs) auto

lemma str_in_append: "str_in xs (ps @ xs @ ss)"
proof (induction ps)
  case Nil
  show ?case by (cases "xs @ ss") (use starts_with_append [of xs ss] in auto)
next
  case (Cons p ps)
  then show ?case by simp
qed

lemma search_skip_unmatched:
  "(\<forall>i<length pre. match_here w r (drop i (pre @ s)) = None) \<Longrightarrow>
     search w r (pre @ s) = search w r s"
proof (induction pre)
  case Nil
  show ?case by simp
next
  case (Cons y pre)
  from Cons.prems have 0: "match_here w r (y # pre @ s) = None" by fastforce
  have "\<forall>i<length pre. match_here w r (drop i (pre @ s)) = None"
  proof (intro allI impI)
    fix i assume "i < length pre"
    then have "Suc i < length (y # pre)" by simp
    with Cons.prems have "match_here w r (drop (Suc i) ((y # pre) @ s)) = None" by blast
    then show "match_here w r (drop i (pre @ s)) = None" by simp
  qed
  with Cons.IH 0 show ?case by simp
qed

lemma CITY_MAP_no_longer_name:
  "\<forall>k\<in>dom CITY_MAP. str_in [0x5317, 0x4EAC] k \<longrightarrow> k = [0x5317, 0x4EAC]"
  by (simp add: CITY_MAP_def LOCATION_KEYWORDS_def dom_map_of_conv_image_fst)

section \<open>The claims\<close>

text \<open>
  C1. For every message (possibly absent), user id and config store, \<open>resolve\<close> applies
  the three tiers in order: when the message is present, non-empty and the extraction
  from its text gives a non-empty location, that location is returned with tier
  \<open>FromMessage\<close>, whatever the config store and the user are (the later steps have
  no part in it); when the message gives nothing and
  the user's stored location is non-empty, the stored location is returned with tier
  \<open>FromUserConfig\<close>; when both give nothing, the system default is returned with tier
  \<open>FromSystemDefault\<close>. The string \<open>get_location\<close> returns is the location of \<open>resolve\<close>.
\<close>

theorem resolve_three_tiers:
  "(message = Some msg \<and> msg \<noteq> [] \<and> WeatherConfig_extract_from_message w cm msg = Some loc \<and> loc \<noteq> []
      \<longrightarrow> resolve w cm guc uid message = Inr \<lparr>canonicalLocation = loc, sourceTier = FromMessage\<rparr>
          \<and> resolve w cm guc' uid' message = resolve w cm guc uid message)
   \<and> ((message = None \<or> message = Some [] \<or>
        (message = Some msg \<and> (WeatherConfig_extract_from_message w cm msg = None \<or>
                                 WeatherConfig_extract_from_message w cm msg = Some [])))
       \<and> guc uid weather_location_key = Some stored \<and> stored \<noteq> []
      \<longrightarrow> resolve w cm guc uid message =
            Inr \<lparr>canonicalLocation = stored, sourceTier = FromUserConfig\<rparr>)
   \<and> ((message = None \<or> message = Some [] \<or>
        (message = Some msg \<and> (WeatherConfig_extract_from_message w cm msg = None \<or>
                                 WeatherConfig_extract_from_message w cm msg = Some [])))
       \<and> (guc uid weather_location_key = None \<or> guc uid weather_location_key = Some [])
      \<longrightarrow> resolve w cm guc uid message =
            Inr \<lparr>canonicalLocation = DEFAULT_LOCATION, sourceTier = FromSystemDefault\<rparr>)
   \<and> WeatherConfig_get_location w cm guc uid message =
       map_sum id canonicalLocation (resolve w cm guc uid message)"
proof (rule conjI [OF impI conjI [OF impI conjI [OF impI]]])
  assume "message = Some msg \<and> msg \<noteq> [] \<and>
          WeatherConfig_extract_from_message w cm msg = Some loc \<and> loc \<noteq> []"
  then show "resolve w cm guc uid message =
             Inr \<lparr>canonicalLocation = loc, sourceTier = FromMessage\<rparr>
          \<and> resolve w cm guc' uid' message = resolve w cm guc uid message"
    by (simp add: resolve_def message_step_def truthy_def)
next
  assume a: "(message = None \<or> message = Some [] \<or>
        (message = Some msg \<and> (WeatherConfig_extract_from_message w cm msg = None \<or>
                                 WeatherConfig_extract_from_message w cm msg = Some [])))
       \<and> guc uid weather_location_key = Some stored \<and> stored \<noteq> []"
  then have "message_step w cm message = None"
    by (auto simp: message_step_def truthy_def)
  with a show "resolve w cm guc uid message =
            Inr \<lparr>canonicalLocation = stored, sourceTier = FromUserConfig\<rparr>"
    by (simp add: resolve_def truthy_def subscript_def)
next
  assume a: "(message = None \<or> message = Some [] \<or>
        (message = Some msg \<and> (WeatherConfig_extract_from_message w cm msg = None \<or>
                                 WeatherConfig_extract_from_message w cm msg = Some [])))
       \<and> (guc uid weather_location_key = None \<or> guc uid weather_location_key = Some [])"
  then have "message_step w cm message = None"
    by (auto simp: message_step_def truthy_def)
  with a show "resolve w cm guc uid message =
            Inr \<lparr>canonicalLocation = DEFAULT_LOCATION, sourceTier = FromSystemDefault\<rparr>"
    by (auto simp: resolve_def truthy_def subscript_def)
next
  show "WeatherConfig_get_location w cm guc uid message =
       map_sum id canonicalLocation (resolve w cm guc uid message)"
    by (simp add: WeatherConfig_get_location_def resolve_def subscript_def Let_def
             split: option.splits)
qed

theorem resolve_three_tiers_witness:
  "resolve word_char CITY_MAP (lookupReturning (Some (ascii ''Hangzhou''))) 7 (Some msg_in_beijing)
     = Inr \<lparr>canonicalLocation = ascii ''Beijing'', sourceTier = FromMessage\<rparr>
   \<and> resolve word_char CITY_MAP (lookupReturning (Some (ascii ''Hangzhou''))) 7 None
     = Inr \<lparr>canonicalLocation = ascii ''Hangzhou'', sourceTier = FromUserConfig\<rparr>
   \<and> resolve word_char CITY_MAP (lookupReturning None) 7 None
     = Inr \<lparr>canonicalLocation = ascii ''Shanghai'', sourceTier = FromSystemDefault\<rparr>"
proof -
  have e: "WeatherConfig_extract_from_message word_char CITY_MAP msg_in_beijing
             = Some (ascii ''Beijing'')"
    by (simp add: eval_defs msg_defs)
  have n: "msg_in_beijing \<noteq> []" "ascii ''Beijing'' \<noteq> []"
    by (simp_all add: msg_defs ascii_def)
  have s: "lookupReturning (Some (ascii ''Hangzhou'')) 7 weather_location_key
             = Some (ascii ''Hangzhou'')" "ascii ''Hangzhou'' \<noteq> []"
    by (simp_all add: lookupReturning_def ascii_def)
  have d: "lookupReturning None 7 weather_location_key = None"
    by (simp add: lookupReturning_def)
  from resolve_three_tiers [where message = "Some msg_in_beijing" and msg = msg_in_beijing
      and w = word_char and cm = CITY_MAP and loc = "ascii ''Beijing''"
      and guc = "lookupReturning (Some (ascii ''Hangzhou''))" and uid = 7] e n
  have 1: "resolve word_char CITY_MAP (lookupReturning (Some (ascii ''Hangzhou''))) 7
             (Some msg_in_beijing)
           = Inr \<lparr>canonicalLocation = ascii ''Beijing'', sourceTier = FromMessage\<rparr>"
    by blast
  from resolve_three_tiers [where message = None and w = word_char and cm = CITY_MAP
      and guc = "lookupReturning (Some (ascii ''Hangzhou''))" and uid = 7
      and stored = "ascii ''Hangzhou''"] s
  have 2: "resolve word_char CITY_MAP (lookupReturning (Some (ascii ''Hangzhou''))) 7 None
     = Inr \<lparr>canonicalLocation = ascii ''Hangzhou'', sourceTier = FromUserConfig\<rparr>"
    by blast
  from resolve_three_tiers [where message = None and w = word_char and cm = CITY_MAP
      and guc = "lookupReturning None" and uid = 7] d
  have 3: "resolve word_char CITY_MAP (lookupReturning None) 7 None
     = Inr \<lparr>canonicalLocation = DEFAULT_LOCATION, sourceTier = FromSystemDefault\<rparr>"
    by blast
  from 1 2 3 show ?thesis by (simp add: DEFAULT_LOCATION_def)
qed

text \<open>
  C2, as stated: \<open>findLongestMatch\<close> returns the entry with the longest name among the
  registered names that occur in the text. The scan of the source returns at the first
  entry, in registration order, whose name occurs. With the shipped table extended by
  "Shanghai Pudong" after "Shanghai", the text "Shanghai Pudong" gives the id of
  "Shanghai", not the longer entry.
\<close>

theorem longest_match_counterexample:
  "keyword_scan (LOCATION_KEYWORDS @ [(name_shanghai_pudong, ascii ''Pudong'')]) name_shanghai_pudong
     = Some (ascii ''Shanghai'')
   \<and> findLongestMatch_spec (LOCATION_KEYWORDS @ [(name_shanghai_pudong, ascii ''Pudong'')])
        name_shanghai_pudong
     = Some (name_shanghai_pudong, ascii ''Pudong'')"
  by (simp add: LOCATION_KEYWORDS_def name_shanghai_pudong_def findLongestMatch_spec_def ascii_def)

text \<open>
  C2, amended. For every table and text, the scan returns the canonical id of the first
  registered entry, in registration order, whose name occurs in the text, and none
  exactly when no registered name occurs. Whenever no entry is registered after a
  shorter one, this is the entry with the longest name among those that occur, the
  earliest on a tie; the shipped table, whose names all have two characters, is such a
  table, so \<open>extract_location_from_message\<close> agrees with the longest-match rule on it.
\<close>

theorem keyword_scan_first_registered:
  "keyword_scan entries text = map_option snd (find (\<lambda>e. str_in (fst e) text) entries)
   \<and> (keyword_scan entries text = None \<longleftrightarrow> (\<forall>e\<in>set entries. \<not> str_in (fst e) text))
   \<and> (sorted_wrt (\<lambda>a b. length (fst b) \<le> length (fst a)) entries \<longrightarrow>
        keyword_scan entries text = map_option snd (findLongestMatch_spec entries text))
   \<and> extract_location_from_message text
        = map_option snd (findLongestMatch_spec LOCATION_KEYWORDS text)"
proof -
  have "sorted_wrt (\<lambda>a b. length (fst b) \<le> length (fst a)) LOCATION_KEYWORDS"
    by (simp add: LOCATION_KEYWORDS_def)
  then have "extract_location_from_message text
        = map_option snd (findLongestMatch_spec LOCATION_KEYWORDS text)"
    unfolding extract_location_from_message_def by (rule keyword_scan_sorted)
  then show ?thesis
    using keyword_scan_find [of entries "text"] keyword_scan_none [of entries "text"]
      keyword_scan_sorted [of entries "text"] by blast
qed

theorem keyword_scan_first_registered_witness:
  "sorted_wrt (\<lambda>a b. length (fst b) \<le> length (fst a))
      ((name_shanghai_pudong, ascii ''Pudong'') # LOCATION_KEYWORDS)
   \<and> keyword_scan ((name_shanghai_pudong, ascii ''Pudong'') # LOCATION_KEYWORDS) name_shanghai_pudong
       = Some (ascii ''Pudong'')
   \<and> findLongestMatch_spec ((name_shanghai_pudong, ascii ''Pudong'') # LOCATION_KEYWORDS)
        name_shanghai_pudong = Some (name_shanghai_pudong, ascii ''Pudong'')
   \<and> extract_location_from_message msg_to_shanghai_from_beijing = Some (ascii ''Beijing'')"
proof -
  have s: "sorted_wrt (\<lambda>a b. length (fst b) \<le> length (fst a))
      ((name_shanghai_pudong, ascii ''Pudong'') # LOCATION_KEYWORDS)"
    by (simp add: LOCATION_KEYWORDS_def name_shanghai_pudong_def)
  have f: "findLongestMatch_spec ((name_shanghai_pudong, ascii ''Pudong'') # LOCATION_KEYWORDS)
        name_shanghai_pudong = Some (name_shanghai_pudong, ascii ''Pudong'')"
    by (simp add: LOCATION_KEYWORDS_def name_shanghai_pudong_def findLongestMatch_spec_def ascii_def)
  have g: "findLongestMatch_spec LOCATION_KEYWORDS msg_to_shanghai_from_beijing
        = Some ([0x5317, 0x4EAC], ascii ''Beijing'')"
    by (simp add: LOCATION_KEYWORDS_def msg_defs findLongestMatch_spec_def ascii_def)
  from keyword_scan_first_registered
         [of "(name_shanghai_pudong, ascii ''Pudong'') # LOCATION_KEYWORDS" name_shanghai_pudong]
  have "sorted_wrt (\<lambda>a b. length (fst b) \<le> length (fst a))
          ((name_shanghai_pudong, ascii ''Pudong'') # LOCATION_KEYWORDS) \<longrightarrow>
        keyword_scan ((name_shanghai_pudong, ascii ''Pudong'') # LOCATION_KEYWORDS)
          name_shanghai_pudong
        = map_option snd (findLongestMatch_spec
            ((name_shanghai_pudong, ascii ''Pudong'') # LOCATION_KEYWORDS) name_shanghai_pudong)"
    by blast
  with s have 1: "keyword_scan ((name_shanghai_pudong, ascii ''Pudong'') # LOCATION_KEYWORDS)
             name_shanghai_pudong = Some (ascii ''Pudong'')"
    unfolding f by simp
  from keyword_scan_first_registered [of "[]" msg_to_shanghai_from_beijing]
  have "extract_location_from_message msg_to_shanghai_from_beijing
        = map_option snd (findLongestMatch_spec LOCATION_KEYWORDS msg_to_shanghai_from_beijing)"
    by blast
  then have 2: "extract_location_from_message msg_to_shanghai_from_beijing
                  = Some (ascii ''Beijing'')"
    unfolding g by simp
  from s f 1 2 show ?thesis by blast
qed

text \<open>
  C3, as stated: both techniques are attempted and the direct scan wins when the two
  disagree. \<open>get_location\<close> calls the pattern-anchored extraction only. On "going to
  Shanghai, leaving Beijing" the direct scan gives Beijing (registered first), the
  pattern \<open>qu X\<close> gives Shanghai, and Shanghai is returned.
\<close>

theorem scan_precedence_counterexample:
  "extract_location_from_message msg_to_shanghai_from_beijing = Some (ascii ''Beijing'')
   \<and> WeatherConfig_extract_from_message word_char CITY_MAP msg_to_shanghai_from_beijing
       = Some (ascii ''Shanghai'')
   \<and> resolve word_char CITY_MAP (lookupReturning None) 0 (Some msg_to_shanghai_from_beijing)
       = Inr \<lparr>canonicalLocation = ascii ''Shanghai'', sourceTier = FromMessage\<rparr>"
  by (simp add: eval_defs msg_defs)

text \<open>
  C3, amended. During message extraction, whenever the pattern-anchored extraction
  gives a non-empty location, \<open>resolve\<close> returns that location with tier \<open>FromMessage\<close>,
  for every table, config store and user, also when the direct scan of the same
  message names another location.
\<close>

theorem pattern_result_returned:
  "WeatherConfig_extract_from_message w cm msg = Some loc \<and> loc \<noteq> [] \<longrightarrow>
     resolve w cm guc uid (Some msg) = Inr \<lparr>canonicalLocation = loc, sourceTier = FromMessage\<rparr>"
proof
  assume a: "WeatherConfig_extract_from_message w cm msg = Some loc \<and> loc \<noteq> []"
  have "msg \<noteq> []"
  proof
    assume "msg = []"
    then have "WeatherConfig_extract_from_message w cm msg = None"
      by (simp add: extract_none_absent)
    with a show False by simp
  qed
  with a show "resolve w cm guc uid (Some msg) =
                 Inr \<lparr>canonicalLocation = loc, sourceTier = FromMessage\<rparr>"
    by (simp add: resolve_def message_step_def truthy_def)
qed

theorem pattern_result_returned_witness:
  "WeatherConfig_extract_from_message word_char CITY_MAP msg_to_shanghai_from_beijing
       = Some (ascii ''Shanghai'')
   \<and> ascii ''Shanghai'' \<noteq> []
   \<and> keyword_scan LOCATION_KEYWORDS msg_to_shanghai_from_beijing = Some (ascii ''Beijing'')
   \<and> resolve word_char CITY_MAP (lookupReturning (Some (ascii ''Hangzhou''))) 3
        (Some msg_to_shanghai_from_beijing)
       = Inr \<lparr>canonicalLocation = ascii ''Shanghai'', sourceTier = FromMessage\<rparr>"
proof -
  have e: "WeatherConfig_extract_from_message word_char CITY_MAP msg_to_shanghai_from_beijing
       = Some (ascii ''Shanghai'')"
    by (simp add: eval_defs msg_defs)
  have n: "ascii ''Shanghai'' \<noteq> []" by (simp add: ascii_def)
  have k: "keyword_scan LOCATION_KEYWORDS msg_to_shanghai_from_beijing = Some (ascii ''Beijing'')"
    by (simp add: LOCATION_KEYWORDS_def msg_defs ascii_def)
  from pattern_result_returned [of word_char CITY_MAP msg_to_shanghai_from_beijing
      "ascii ''Shanghai''" "lookupReturning (Some (ascii ''Hangzhou''))" 3] e n
  have "resolve word_char CITY_MAP (lookupReturning (Some (ascii ''Hangzhou''))) 3
        (Some msg_to_shanghai_from_beijing)
       = Inr \<lparr>canonicalLocation = ascii ''Shanghai'', sourceTier = FromMessage\<rparr>"
    by blast
  with e n k show ?thesis by blast
qed

text \<open>
  C4. The message "came to Beijing on business, the weather is cold" with no stored
  location: the design note (section 7) has the position recognised as Beijing. In
  the code no pattern matches (none of the three cue characters occurs, and the run of
  word characters before "weather" is cut by the comma), so \<open>resolve\<close> returns the default
  Shanghai with tier \<open>FromSystemDefault\<close>; the direct scan, which \<open>get_location\<close> does not
  call, finds Beijing.
\<close>

theorem beijing_trip_falls_to_default:
  "WeatherConfig_extract_from_message word_char CITY_MAP msg_beijing_trip = None
   \<and> resolve word_char CITY_MAP (lookupReturning None) uid (Some msg_beijing_trip)
       = Inr \<lparr>canonicalLocation = ascii ''Shanghai'', sourceTier = FromSystemDefault\<rparr>
   \<and> extract_location_from_message msg_beijing_trip = Some (ascii ''Beijing'')"
  by (simp add: eval_defs msg_defs)

text \<open>
  C5. The message "today walking by the West Lake in Hangzhou" with the stored location
  Beijing: the design note (section 2) has Hangzhou recognised, and its priority list
  puts a place mentioned in the message first. In the code the pattern \<open>zai X\<close> captures
  the whole run "Hangzhou West Lake side walk", which is no key of the table, so the
  extraction returns nothing and \<open>resolve\<close> returns the stored Beijing with tier
  \<open>FromUserConfig\<close>; the direct scan finds Hangzhou. The design note's own message,
  which goes on with ", the weather is really fine", gives the same.
\<close>

theorem hangzhou_walk_falls_to_config:
  "search word_char (cue_pattern zh_zai) msg_hangzhou_walk
     = Some (Match (Some [0x676D, 0x5DDE, 0x897F, 0x6E56, 0x8FB9, 0x6563, 0x6B65]))
   \<and> WeatherConfig_extract_from_message word_char CITY_MAP msg_hangzhou_walk = None
   \<and> resolve word_char CITY_MAP (lookupReturning (Some (ascii ''Beijing''))) uid
        (Some msg_hangzhou_walk)
       = Inr \<lparr>canonicalLocation = ascii ''Beijing'', sourceTier = FromUserConfig\<rparr>
   \<and> extract_location_from_message msg_hangzhou_walk = Some (ascii ''Hangzhou'')
   \<and> resolve word_char CITY_MAP (lookupReturning (Some (ascii ''Beijing''))) uid
        (Some msg_hangzhou_walk_fine)
       = Inr \<lparr>canonicalLocation = ascii ''Beijing'', sourceTier = FromUserConfig\<rparr>"
  by (simp add: eval_defs msg_defs)

text \<open>
  C6. For every message: when the first pattern that matches captures a span that is
  no key of the city table, the extraction returns nothing, \<open>resolve\<close> gives what it
  gives for an absent message, and its tier is not \<open>FromMessage\<close>. Whenever \<open>resolve\<close>
  does return tier \<open>FromMessage\<close>, its location is the table's value at the captured
  span; a captured name itself is never returned as a guess.
\<close>

theorem unrecognized_capture_discarded:
  "(first_match w patterns msg = Some m \<and> city_get cm (group1 m) = None \<longrightarrow>
      WeatherConfig_extract_from_message w cm msg = None \<and>
      resolve w cm guc uid (Some msg) = resolve w cm guc uid None \<and>
      (\<exists>r. resolve w cm guc uid (Some msg) = Inr r \<and> sourceTier r \<noteq> FromMessage))
   \<and> (resolve w cm guc uid (Some msg) = Inr r \<and> sourceTier r = FromMessage \<longrightarrow>
        (\<exists>m cap. first_match w patterns msg = Some m \<and> group1 m = Some cap \<and>
                  cm cap = Some (canonicalLocation r)))"
proof (rule conjI; rule impI)
  assume a: "first_match w patterns msg = Some m \<and> city_get cm (group1 m) = None"
  then have e: "WeatherConfig_extract_from_message w cm msg = None"
    by (simp add: WeatherConfig_extract_from_message_def extract_loop_first_match)
  then have s: "resolve w cm guc uid (Some msg) = resolve w cm guc uid None"
    by (simp add: resolve_message_none message_step_extract_none)
  from e s resolve_None_tier [of w cm guc uid]
  show "WeatherConfig_extract_from_message w cm msg = None \<and>
      resolve w cm guc uid (Some msg) = resolve w cm guc uid None \<and>
      (\<exists>r. resolve w cm guc uid (Some msg) = Inr r \<and> sourceTier r \<noteq> FromMessage)"
    by simp
next
  assume a: "resolve w cm guc uid (Some msg) = Inr r \<and> sourceTier r = FromMessage"
  then obtain loc where l: "message_step w cm (Some msg) = Some loc" "canonicalLocation r = loc"
    unfolding resolve_cases by (auto split: option.splits if_splits)
  from message_step_Some [OF l(1)]
  have "WeatherConfig_extract_from_message w cm msg = Some loc" by simp
  then obtain m where m: "first_match w patterns msg = Some m" "city_get cm (group1 m) = Some loc"
    by (auto simp: WeatherConfig_extract_from_message_def extract_loop_first_match
             split: option.splits)
  then obtain cap where "group1 m = Some cap" "cm cap = Some loc"
    by (auto simp: city_get_def split: option.splits)
  with m l show "\<exists>m cap. first_match w patterns msg = Some m \<and> group1 m = Some cap \<and>
                  cm cap = Some (canonicalLocation r)"
    by blast
qed

theorem unrecognized_capture_discarded_witness:
  "first_match word_char patterns msg_in_beijing_playing
      = Some (Match (Some [0x5317, 0x4EAC, 0x73A9]))
   \<and> city_get CITY_MAP (group1 (Match (Some [0x5317, 0x4EAC, 0x73A9]))) = None
   \<and> WeatherConfig_extract_from_message word_char CITY_MAP msg_in_beijing_playing = None
   \<and> resolve word_char CITY_MAP (lookupReturning (Some (ascii ''Hangzhou''))) 5
        (Some msg_in_beijing_playing)
      = resolve word_char CITY_MAP (lookupReturning (Some (ascii ''Hangzhou''))) 5 None"
proof -
  have f: "first_match word_char patterns msg_in_beijing_playing
      = Some (Match (Some [0x5317, 0x4EAC, 0x73A9]))"
    by (simp add: pattern_defs word_char_eval msg_defs)
  have c: "city_get CITY_MAP (group1 (Match (Some [0x5317, 0x4EAC, 0x73A9]))) = None"
    by (simp add: city_get_def CITY_MAP_def LOCATION_KEYWORDS_def)
  from unrecognized_capture_discarded [of word_char msg_in_beijing_playing
      "Match (Some [0x5317, 0x4EAC, 0x73A9])" CITY_MAP
      "lookupReturning (Some (ascii ''Hangzhou''))" 5] f c
  have "WeatherConfig_extract_from_message word_char CITY_MAP msg_in_beijing_playing = None
   \<and> resolve word_char CITY_MAP (lookupReturning (Some (ascii ''Hangzhou''))) 5
        (Some msg_in_beijing_playing)
      = resolve word_char CITY_MAP (lookupReturning (Some (ascii ''Hangzhou''))) 5 None"
    by blast
  with f c show ?thesis by blast
qed

text \<open>
  C7. \<open>resolve\<close> never raises: for every message, user, table and config store it
  returns a result (the guarded subscript never gives \<open>KeyError\<close>), and the location is
  non-empty; so does \<open>get_location\<close>. When the message gives nothing and the store holds
  no location, or an empty one, the result is the system default with tier
  \<open>FromSystemDefault\<close>, and the default is non-empty.
\<close>

theorem resolve_never_raises:
  "(\<exists>r. resolve w cm guc uid message = Inr r \<and> canonicalLocation r \<noteq> [])
   \<and> (\<exists>loc. WeatherConfig_get_location w cm guc uid message = Inr loc \<and> loc \<noteq> [])
   \<and> (message_step w cm message = None \<and>
        (guc uid weather_location_key = None \<or> guc uid weather_location_key = Some [])
       \<longrightarrow> resolve w cm guc uid message =
             Inr \<lparr>canonicalLocation = DEFAULT_LOCATION, sourceTier = FromSystemDefault\<rparr>)
   \<and> DEFAULT_LOCATION \<noteq> []"
proof -
  have 1: "\<exists>r. resolve w cm guc uid message = Inr r \<and> canonicalLocation r \<noteq> []"
  proof (cases "message_step w cm message")
    case None
    then show ?thesis
      by (simp add: resolve_cases DEFAULT_LOCATION_nonempty split: option.splits)
  next
    case (Some loc)
    with message_step_Some [OF Some] show ?thesis by (simp add: resolve_cases)
  qed
  have g: "WeatherConfig_get_location w cm guc uid message =
       map_sum id canonicalLocation (resolve w cm guc uid message)"
    by (simp add: WeatherConfig_get_location_def resolve_def subscript_def Let_def
             split: option.splits)
  from 1 g have 2: "\<exists>loc. WeatherConfig_get_location w cm guc uid message = Inr loc \<and> loc \<noteq> []"
    by auto
  have 3: "message_step w cm message = None \<and>
        (guc uid weather_location_key = None \<or> guc uid weather_location_key = Some [])
       \<longrightarrow> resolve w cm guc uid message =
             Inr \<lparr>canonicalLocation = DEFAULT_LOCATION, sourceTier = FromSystemDefault\<rparr>"
    by (auto simp: resolve_cases)
  from 1 2 3 DEFAULT_LOCATION_nonempty show ?thesis by blast
qed

theorem resolve_never_raises_witness:
  "message_step word_char CITY_MAP (Some msg_beijing_trip) = None
   \<and> lookupReturning None 9 weather_location_key = None
   \<and> resolve word_char CITY_MAP (lookupReturning None) 9 (Some msg_beijing_trip)
       = Inr \<lparr>canonicalLocation = DEFAULT_LOCATION, sourceTier = FromSystemDefault\<rparr>
   \<and> DEFAULT_LOCATION = ascii ''Shanghai''"
proof -
  have m: "message_step word_char CITY_MAP (Some msg_beijing_trip) = None"
    by (simp add: eval_defs msg_defs)
  have l: "lookupReturning None 9 weather_location_key = None"
    by (simp add: lookupReturning_def)
  from resolve_never_raises [of word_char CITY_MAP "lookupReturning None" 9
      "Some msg_beijing_trip"] m l
  have "resolve word_char CITY_MAP (lookupReturning None) 9 (Some msg_beijing_trip)
       = Inr \<lparr>canonicalLocation = DEFAULT_LOCATION, sourceTier = FromSystemDefault\<rparr>"
    by blast
  with m l show ?thesis by (simp add: DEFAULT_LOCATION_def)
qed

text \<open>
  C8. For every user, table and config store, a message that is empty or consists of
  whitespace only gives the same result as an absent message, from \<open>resolve\<close> and from
  \<open>get_location\<close>; the empty message with no stored location gives Shanghai with tier
  \<open>FromSystemDefault\<close>.
\<close>

theorem blank_message_as_absent:
  "(list_all isspace msg \<longrightarrow>
      resolve w cm guc uid (Some msg) = resolve w cm guc uid None \<and>
      WeatherConfig_get_location w cm guc uid (Some msg) =
        WeatherConfig_get_location w cm guc uid None)
   \<and> resolve w cm (lookupReturning None) uid (Some [])
       = Inr \<lparr>canonicalLocation = ascii ''Shanghai'', sourceTier = FromSystemDefault\<rparr>"
proof (intro conjI impI)
  assume "list_all isspace msg"
  from isspace_not_cue [OF this]
  have "WeatherConfig_extract_from_message w cm msg = None"
    by (simp add: extract_none_absent)
  then have m: "message_step w cm (Some msg) = None"
    by (rule message_step_extract_none)
  then show "resolve w cm guc uid (Some msg) = resolve w cm guc uid None"
    by (rule resolve_message_none)
  from m show "WeatherConfig_get_location w cm guc uid (Some msg) =
        WeatherConfig_get_location w cm guc uid None"
    by (simp add: WeatherConfig_get_location_def message_step_def)
next
  show "resolve w cm (lookupReturning None) uid (Some [])
       = Inr \<lparr>canonicalLocation = ascii ''Shanghai'', sourceTier = FromSystemDefault\<rparr>"
    by (simp add: resolve_cases message_step_def truthy_def lookupReturning_def
                  DEFAULT_LOCATION_def)
qed

theorem blank_message_as_absent_witness:
  "list_all isspace [32, 9, 12288]
   \<and> resolve word_char CITY_MAP (lookupReturning (Some (ascii ''Hangzhou''))) 4 (Some [32, 9, 12288])
       = Inr \<lparr>canonicalLocation = ascii ''Hangzhou'', sourceTier = FromUserConfig\<rparr>
   \<and> resolve word_char CITY_MAP (lookupReturning (Some (ascii ''Hangzhou''))) 4 None
       = Inr \<lparr>canonicalLocation = ascii ''Hangzhou'', sourceTier = FromUserConfig\<rparr>"
proof -
  have s: "list_all isspace [32, 9, 12288]" by (simp add: isspace_def)
  have n: "resolve word_char CITY_MAP (lookupReturning (Some (ascii ''Hangzhou''))) 4 None
       = Inr \<lparr>canonicalLocation = ascii ''Hangzhou'', sourceTier = FromUserConfig\<rparr>"
    by (simp add: resolve_cases message_step_def lookupReturning_def ascii_def)
  from blank_message_as_absent [of "[32, 9, 12288]" word_char CITY_MAP
      "lookupReturning (Some (ascii ''Hangzhou''))" 4] s
  have "resolve word_char CITY_MAP (lookupReturning (Some (ascii ''Hangzhou''))) 4
          (Some [32, 9, 12288])
        = resolve word_char CITY_MAP (lookupReturning (Some (ascii ''Hangzhou''))) 4 None"
    by blast
  with s n show ?thesis by simp
qed

text \<open>
  C9. The patterns are tried in the order \<open>zai X\<close>, \<open>qu X\<close>, \<open>dao X\<close>, \<open>X tianqi\<close>. When the
  patterns before \<open>p\<close> do not match the message, \<open>p\<close> matches and its capture is no key
  of the city table, the loop returns nothing whatever patterns follow \<open>p\<close>; for the
  program's list, the extraction returns nothing and \<open>resolve\<close> gives what it gives for an
  absent message, with a tier other than \<open>FromMessage\<close>.
\<close>

theorem first_matching_pattern_decides:
  "patterns = [cue_pattern zh_zai, cue_pattern zh_qu, cue_pattern zh_dao, weather_pattern]
   \<and> ((\<forall>q\<in>set ps1. search w q msg = None) \<and> search w p msg = Some m \<and>
        city_get cm (group1 m) = None \<longrightarrow>
        extract_loop w cm (ps1 @ p # ps2) msg = None \<and>
        (patterns = ps1 @ p # ps2 \<longrightarrow>
           WeatherConfig_extract_from_message w cm msg = None \<and>
           resolve w cm guc uid (Some msg) = resolve w cm guc uid None \<and>
           (\<exists>r. resolve w cm guc uid (Some msg) = Inr r \<and> sourceTier r \<noteq> FromMessage)))"
proof -
  have o: "patterns = [cue_pattern zh_zai, cue_pattern zh_qu, cue_pattern zh_dao, weather_pattern]"
    by (rule patterns_def)
  have "extract_loop w cm (ps1 @ p # ps2) msg = None \<and>
        (patterns = ps1 @ p # ps2 \<longrightarrow>
           WeatherConfig_extract_from_message w cm msg = None \<and>
           resolve w cm guc uid (Some msg) = resolve w cm guc uid None \<and>
           (\<exists>r. resolve w cm guc uid (Some msg) = Inr r \<and> sourceTier r \<noteq> FromMessage))"
    if a: "(\<forall>q\<in>set ps1. search w q msg = None) \<and> search w p msg = Some m \<and>
        city_get cm (group1 m) = None"
  proof (rule conjI)
    from a show l: "extract_loop w cm (ps1 @ p # ps2) msg = None"
      using extract_loop_first [of ps1 w msg p m cm ps2] by simp
    show "patterns = ps1 @ p # ps2 \<longrightarrow>
           WeatherConfig_extract_from_message w cm msg = None \<and>
           resolve w cm guc uid (Some msg) = resolve w cm guc uid None \<and>
           (\<exists>r. resolve w cm guc uid (Some msg) = Inr r \<and> sourceTier r \<noteq> FromMessage)"
    proof
      assume p: "patterns = ps1 @ p # ps2"
      with l have e: "WeatherConfig_extract_from_message w cm msg = None"
        by (simp add: WeatherConfig_extract_from_message_def)
      then have s: "resolve w cm guc uid (Some msg) = resolve w cm guc uid None"
        by (simp add: resolve_message_none message_step_extract_none)
      from e s resolve_None_tier [of w cm guc uid]
      show "WeatherConfig_extract_from_message w cm msg = None \<and>
           resolve w cm guc uid (Some msg) = resolve w cm guc uid None \<and>
           (\<exists>r. resolve w cm guc uid (Some msg) = Inr r \<and> sourceTier r \<noteq> FromMessage)"
        by simp
    qed
  qed
  with o show ?thesis by blast
qed

theorem first_matching_pattern_decides_witness:
  "search word_char (cue_pattern zh_zai) msg_home_then_beijing = Some (Match (Some [0x5BB6]))
   \<and> city_get CITY_MAP (group1 (Match (Some [0x5BB6]))) = None
   \<and> search word_char (cue_pattern zh_qu) msg_home_then_beijing
       = Some (Match (Some [0x5317, 0x4EAC]))
   \<and> CITY_MAP [0x5317, 0x4EAC] = Some (ascii ''Beijing'')
   \<and> WeatherConfig_extract_from_message word_char CITY_MAP msg_home_then_beijing = None
   \<and> resolve word_char CITY_MAP (lookupReturning None) 2 (Some msg_home_then_beijing)
       = Inr \<lparr>canonicalLocation = ascii ''Shanghai'', sourceTier = FromSystemDefault\<rparr>"
proof -
  have z: "search word_char (cue_pattern zh_zai) msg_home_then_beijing
             = Some (Match (Some [0x5BB6]))"
    by (simp add: pattern_defs word_char_eval msg_defs)
  have c: "city_get CITY_MAP (group1 (Match (Some [0x5BB6]))) = None"
    by (simp add: city_get_def CITY_MAP_def LOCATION_KEYWORDS_def)
  have q: "search word_char (cue_pattern zh_qu) msg_home_then_beijing
       = Some (Match (Some [0x5317, 0x4EAC]))"
    by (simp add: pattern_defs word_char_eval msg_defs)
  have b: "CITY_MAP [0x5317, 0x4EAC] = Some (ascii ''Beijing'')"
    by (simp add: CITY_MAP_def LOCATION_KEYWORDS_def)
  have p: "patterns = [] @ cue_pattern zh_zai # [cue_pattern zh_qu, cue_pattern zh_dao, weather_pattern]"
    by (simp add: patterns_def)
  have n: "resolve word_char CITY_MAP (lookupReturning None) 2 None
       = Inr \<lparr>canonicalLocation = ascii ''Shanghai'', sourceTier = FromSystemDefault\<rparr>"
    by (simp add: resolve_cases message_step_def lookupReturning_def DEFAULT_LOCATION_def)
  from first_matching_pattern_decides [of "[]" word_char msg_home_then_beijing
      "cue_pattern zh_zai" "Match (Some [0x5BB6])" CITY_MAP
      "[cue_pattern zh_qu, cue_pattern zh_dao, weather_pattern]" "lookupReturning None" 2] z c p
  have "WeatherConfig_extract_from_message word_char CITY_MAP msg_home_then_beijing = None
      \<and> resolve word_char CITY_MAP (lookupReturning None) 2 (Some msg_home_then_beijing)
        = resolve word_char CITY_MAP (lookupReturning None) 2 None"
    by simp
  with z c q b n show ?thesis by simp
qed

text \<open>
  C10, as stated: in every message in which a registered city name is immediately
  followed (for the weather pattern, preceded) by further word characters, the lookup of
  the capture fails and the extraction gives no location. Four messages refute it. In
  "going to Beijing to play, in Shanghai" the first pattern, tried before the second,
  finds Shanghai. In "in Shanghai, in Beijing playing" the leftmost match of the first
  pattern captures Shanghai. In "Shanghai weather, today Beijing weather" the leftmost
  match of the fourth pattern captures Shanghai. In "in Shanghai Pudong", with "Shanghai
  Pudong" registered beside "Shanghai", the longer capture is itself a key.
\<close>

theorem greedy_capture_counterexample:
  "str_in [zh_qu, 0x5317, 0x4EAC, 0x73A9] msg_go_beijing_play_in_shanghai
   \<and> WeatherConfig_extract_from_message word_char CITY_MAP msg_go_beijing_play_in_shanghai
       = Some (ascii ''Shanghai'')
   \<and> str_in msg_in_beijing_playing msg_in_shanghai_in_beijing_play
   \<and> WeatherConfig_extract_from_message word_char CITY_MAP msg_in_shanghai_in_beijing_play
       = Some (ascii ''Shanghai'')
   \<and> str_in msg_today_beijing_weather msg_shanghai_weather_today_beijing_weather
   \<and> WeatherConfig_extract_from_message word_char CITY_MAP
        msg_shanghai_weather_today_beijing_weather = Some (ascii ''Shanghai'')
   \<and> msg_in_shanghai_pudong = zh_zai # [0x4E0A, 0x6D77] @ [0x6D66, 0x4E1C]
   \<and> WeatherConfig_extract_from_message word_char
        (CITY_MAP(name_shanghai_pudong \<mapsto> ascii ''Pudong'')) msg_in_shanghai_pudong
       = Some (ascii ''Pudong'')
   \<and> CITY_MAP [0x5317, 0x4EAC] = Some (ascii ''Beijing'')
   \<and> CITY_MAP [0x4E0A, 0x6D77] = Some (ascii ''Shanghai'')
   \<and> word_char 0x73A9 \<and> word_char 0x4ECA \<and> word_char 0x5929 \<and> word_char 0x6D66"
  by (simp add: eval_defs msg_defs msg_defs2 msg_today_beijing_weather_def name_shanghai_pudong_def)

text \<open>
  C10, amended. Each pattern captures a maximal greedy run of word characters next to
  its cue. Let \<open>city\<close> be a registered name made of word characters, in a table none of
  whose names properly contains \<open>city\<close> (the shipped table is such a table for each of its
  names). If, at the leftmost match of the first pattern that matches, a cue character
  is followed by \<open>city\<close> and a further word character \<open>x\<close>, the capture is \<open>city\<close>, \<open>x\<close> and
  the word characters after it, and the extraction gives nothing ("playing in Beijing":
  the capture is the three characters after the cue). If no cue pattern matches and the
  leftmost match of the fourth pattern starts at a run of word characters that consists
  of \<open>city\<close> with further word characters before or after it and is followed by
  "weather", the capture begins with the whole run and the extraction gives nothing.
\<close>

theorem greedy_capture_misses_city:
  assumes reg: "cm city = Some en"
    and own: "\<forall>k\<in>dom cm. str_in city k \<longrightarrow> k = city"
    and wc: "list_all w city"
  shows "(patterns = ps1 @ cue_pattern c # ps2 \<and> w x \<and>
          (\<forall>q\<in>set ps1. search w q (pre @ c # city @ x # rest) = None) \<and>
          (\<forall>i<length pre.
              match_here w (cue_pattern c) (drop i (pre @ c # city @ x # rest)) = None) \<longrightarrow>
            search w (cue_pattern c) (pre @ c # city @ x # rest)
              = Some (Match (Some (city @ x # takeWhile w rest))) \<and>
            WeatherConfig_extract_from_message w cm (pre @ c # city @ x # rest) = None)
       \<and> (list_all w (a @ b) \<and> a @ b \<noteq> [] \<and>
          (\<forall>q\<in>set (butlast patterns).
              search w q (pre @ (a @ city @ b) @ zh_tian # zh_qi # rest) = None) \<and>
          (\<forall>i<length pre.
              match_here w weather_pattern
                (drop i (pre @ (a @ city @ b) @ zh_tian # zh_qi # rest)) = None) \<longrightarrow>
            (\<exists>cap. search w weather_pattern (pre @ (a @ city @ b) @ zh_tian # zh_qi # rest)
                      = Some (Match (Some cap)) \<and>
                   take (length (a @ city @ b)) cap = a @ city @ b) \<and>
            WeatherConfig_extract_from_message w cm
              (pre @ (a @ city @ b) @ zh_tian # zh_qi # rest) = None)"
proof (rule conjI; rule impI)
  let ?s = "c # city @ x # rest"
  let ?msg = "pre @ ?s"
  let ?cap = "city @ x # takeWhile w rest"
  assume h: "patterns = ps1 @ cue_pattern c # ps2 \<and> w x \<and>
          (\<forall>q\<in>set ps1. search w q ?msg = None) \<and>
          (\<forall>i<length pre. match_here w (cue_pattern c) (drop i ?msg) = None)"
  have tw: "takeWhile w (city @ x # rest) = ?cap" using wc h by (simp add: takeWhile_run)
  have "search w (cue_pattern c) ?msg = search w (cue_pattern c) ?s"
    using h by (intro search_skip_unmatched) blast
  also have "\<dots> = Some (Match (Some ?cap))"
    using search_cue_found [of c "[]" w "city @ x # rest"] tw by simp
  finally have s: "search w (cue_pattern c) ?msg = Some (Match (Some ?cap))" .
  have "?cap \<notin> dom cm"
  proof
    assume d: "?cap \<in> dom cm"
    have "str_in city ?cap" using str_in_append [of city "[]" "x # takeWhile w rest"] by simp
    with d own have "?cap = city" by blast
    then show False by simp
  qed
  then have n: "cm ?cap = None" by blast
  have "extract_loop w cm (ps1 @ cue_pattern c # ps2) ?msg = city_get cm (group1 (Match (Some ?cap)))"
    using extract_loop_first [of ps1 w ?msg "cue_pattern c" "Match (Some ?cap)" cm ps2] h s
    by blast
  with h n have "WeatherConfig_extract_from_message w cm ?msg = None"
    by (simp add: WeatherConfig_extract_from_message_def city_get_def)
  with s show "search w (cue_pattern c) ?msg = Some (Match (Some ?cap)) \<and>
            WeatherConfig_extract_from_message w cm ?msg = None"
    by blast
next
  let ?run = "a @ city @ b"
  let ?s = "?run @ zh_tian # zh_qi # rest"
  let ?msg = "pre @ ?s"
  assume h: "list_all w (a @ b) \<and> a @ b \<noteq> [] \<and>
          (\<forall>q\<in>set (butlast patterns). search w q ?msg = None) \<and>
          (\<forall>i<length pre. match_here w weather_pattern (drop i ?msg) = None)"
  have r: "list_all w ?run" "?run \<noteq> []" using h wc by auto
  from search_weather_run [OF r, of "[]" rest] obtain cap where
    cap0: "search w weather_pattern ?s = Some (Match (Some cap))"
         "take (length ?run) cap = ?run" "length ?run \<le> length cap"
    by auto
  have "search w weather_pattern ?msg = search w weather_pattern ?s"
    using h by (intro search_skip_unmatched) blast
  with cap0 have cap: "search w weather_pattern ?msg = Some (Match (Some cap))" by simp
  have "length city < length ?run" using h by (cases a; cases b) auto
  with cap0(3) have lc: "length city < length cap" by linarith
  have "cap \<notin> dom cm"
  proof
    assume d: "cap \<in> dom cm"
    have "take (length ?run) cap @ drop (length ?run) cap = cap" by (rule append_take_drop_id)
    then have "(a @ city @ b) @ drop (length ?run) cap = cap" unfolding cap0(2) .
    then have "cap = a @ city @ (b @ drop (length ?run) cap)" by simp
    then have "str_in city cap" using str_in_append [of city a "b @ drop (length ?run) cap"]
      by simp
    with d own have "cap = city" by blast
    with lc show False by simp
  qed
  then have n: "cm cap = None" by blast
  have p: "patterns = butlast patterns @ weather_pattern # []"
    by (simp add: patterns_def)
  have "extract_loop w cm (butlast patterns @ weather_pattern # []) ?msg
          = city_get cm (group1 (Match (Some cap)))"
    using extract_loop_first [of "butlast patterns" w ?msg weather_pattern "Match (Some cap)" cm "[]"]
      h cap by blast
  with n have "extract_loop w cm patterns ?msg = None"
    using p by (simp add: city_get_def)
  then have "WeatherConfig_extract_from_message w cm ?msg = None"
    by (simp add: WeatherConfig_extract_from_message_def)
  with cap cap0 show "(\<exists>cap. search w weather_pattern ?msg = Some (Match (Some cap)) \<and>
                   take (length ?run) cap = ?run) \<and>
            WeatherConfig_extract_from_message w cm ?msg = None"
    by blast
qed

theorem greedy_capture_misses_city_witness:
  "CITY_MAP [0x5317, 0x4EAC] = Some (ascii ''Beijing'')
   \<and> search word_char (cue_pattern zh_zai) msg_in_beijing_playing
       = Some (Match (Some [0x5317, 0x4EAC, 0x73A9]))
   \<and> WeatherConfig_extract_from_message word_char CITY_MAP msg_in_beijing_playing = None
   \<and> WeatherConfig_extract_from_message word_char CITY_MAP msg_in_comma_today_beijing_weather
       = None"
proof -
  have reg: "CITY_MAP [0x5317, 0x4EAC] = Some (ascii ''Beijing'')"
    by (simp add: CITY_MAP_def LOCATION_KEYWORDS_def)
  note own = CITY_MAP_no_longer_name
  have wc: "list_all word_char [0x5317, 0x4EAC]" by (simp add: word_char_eval)
  have p: "patterns = [] @ cue_pattern zh_zai # [cue_pattern zh_qu, cue_pattern zh_dao, weather_pattern]"
    by (simp add: patterns_def)
  have wx: "word_char 0x73A9" by (simp add: word_char_eval)
  have m1: "msg_in_beijing_playing = [] @ zh_zai # [0x5317, 0x4EAC] @ 0x73A9 # []"
    by (simp add: msg_defs zh_defs)
  have m2: "msg_in_comma_today_beijing_weather
              = [zh_zai, 0xFF0C] @ ([0x4ECA, 0x5929] @ [0x5317, 0x4EAC] @ []) @ zh_tian # zh_qi # []"
    by (simp add: msg_in_comma_today_beijing_weather_def zh_defs)
  have ab: "list_all word_char ([0x4ECA, 0x5929] @ [])" "[0x4ECA, 0x5929 :: nat] @ [] \<noteq> []"
    by (simp_all add: word_char_eval)
  have q: "\<forall>q\<in>set (butlast patterns).
             search word_char q msg_in_comma_today_beijing_weather = None"
    by (simp add: pattern_defs word_char_eval msg_in_comma_today_beijing_weather_def)
  have l: "\<forall>i<length [zh_zai, 0xFF0C].
             match_here word_char weather_pattern (drop i msg_in_comma_today_beijing_weather) = None"
    by (simp add: all_less_two pattern_defs word_char_eval msg_in_comma_today_beijing_weather_def)
  note t = greedy_capture_misses_city [OF reg own wc, where ?ps1.0 = "[]" and c = zh_zai
      and ?ps2.0 = "[cue_pattern zh_qu, cue_pattern zh_dao, weather_pattern]"
      and x = "0x73A9" and rest = "[]" and a = "[0x4ECA, 0x5929]" and b = "[]"]
  from t [where pre = "[]"] p wx
  have 1: "search word_char (cue_pattern zh_zai) msg_in_beijing_playing
       = Some (Match (Some [0x5317, 0x4EAC, 0x73A9]))
   \<and> WeatherConfig_extract_from_message word_char CITY_MAP msg_in_beijing_playing = None"
    unfolding m1 by simp
  from t [where pre = "[zh_zai, 0xFF0C]"] ab q l
  have 2: "WeatherConfig_extract_from_message word_char CITY_MAP
      msg_in_comma_today_beijing_weather = None"
    unfolding m2 by simp
  from reg 1 2 show ?thesis by blast
qed

end
